theory Spec2Isabelle
  imports Main "HOL-Library.AList" "HOL-Library.Word"
begin

section \<open>The HTCondor submitter of alea (alea/submitters/htcondor.py)\<close>

text \<open>
  A shallow embedding of \<^verbatim>\<open>SubmitterHTCondor\<close>. Python values are modelled by
  datatypes, the attributes of \<^verbatim>\<open>self\<close> by a record that every method takes and
  returns, and every \<^verbatim>\<open>raise\<close> by the left summand of a sum type which also
  carries the attributes as they are at the moment of the raise.

  The Pegasus objects (\<^verbatim>\<open>Job\<close>, \<^verbatim>\<open>Workflow\<close>, the three catalogs) live in an external
  library. They are modelled as the sequence of \<^verbatim>\<open>add_*\<close> calls the submitter makes on
  them, in call order; what Pegasus itself checks when such a call arrives is outside
  the model.
\<close>

subsection \<open>Python values and errors\<close>

datatype pyval =
    PStr string
  | PInt int
  | PBool bool
  | PNone
  | PList "pyval list"
  | PDict "(string \<times> pyval) list"

type_synonym pydict = "(string \<times> pyval) list"

datatype pyerror =
    ValueError string
  | RuntimeError string
  | NotImplementedError string
  | KeyError string
  | TypeError
  | AttributeError
  | AssertionError string
  | ZeroDivisionError
  | UnboundLocalError
  | IndexError
  | FileExistsError
  | NotADirectoryError
  | ExternalError string

text \<open>\<^verbatim>\<open>d[k]\<close> raises \<^verbatim>\<open>KeyError\<close> on a missing key; \<^verbatim>\<open>d[k] = v\<close> keeps the position of
  an existing key and appends a new one, which is what \<^const>\<open>AList.update\<close> does.\<close>

text \<open>Sequencing: the first error ends the computation.\<close>

definition andthen :: "'e + 'a \<Rightarrow> ('a \<Rightarrow> 'e + 'b) \<Rightarrow> 'e + 'b" where
  "andthen m f = (case m of Inl e \<Rightarrow> Inl e | Inr x \<Rightarrow> f x)"

text \<open>An error raised while the attributes are \<open>st\<close>.\<close>

definition at :: "'s \<Rightarrow> 'e + 'a \<Rightarrow> ('e \<times> 's) + 'a" where
  "at st m = (case m of Inl e \<Rightarrow> Inl (e, st) | Inr x \<Rightarrow> Inr x)"

definition getitem :: "pydict \<Rightarrow> string \<Rightarrow> pyerror + pyval" where
  "getitem d k = (case map_of d k of None \<Rightarrow> Inl (KeyError k) | Some v \<Rightarrow> Inr v)"

definition setitem :: "pydict \<Rightarrow> string \<Rightarrow> pyval \<Rightarrow> pydict" where
  "setitem d k v = AList.update k v d"

subsection \<open>Strings: \<^verbatim>\<open>str(int)\<close>, \<^verbatim>\<open>os.path.basename\<close>, \<^verbatim>\<open>os.path.join\<close>, \<^verbatim>\<open>str.replace\<close>\<close>

definition digit_char :: "nat \<Rightarrow> char" where
  "digit_char n = ''0123456789'' ! n"

function str_nat :: "nat \<Rightarrow> string" where
  "str_nat n = (if n < 10 then [digit_char n] else str_nat (n div 10) @ [digit_char (n mod 10)])"
  by pat_completeness auto
termination
  by (relation "measure id") auto

declare str_nat.simps [simp del]

definition str_int :: "int \<Rightarrow> string" where
  "str_int i = (if i < 0 then CHR ''-'' # str_nat (nat (- i)) else str_nat (nat i))"

text \<open>\<^verbatim>\<open>posixpath.basename\<close>: everything after the last slash.\<close>

definition basename :: "string \<Rightarrow> string" where
  "basename p = rev (takeWhile (\<lambda>c. c \<noteq> CHR ''/'') (rev p))"

text \<open>\<^verbatim>\<open>posixpath.join\<close> of two components.\<close>

definition path_join :: "string \<Rightarrow> string \<Rightarrow> string" where
  "path_join a b =
     (if b \<noteq> [] \<and> hd b = CHR ''/'' then b
      else if a = [] \<or> last a = CHR ''/'' then a @ b
      else a @ ''/'' @ b)"

text \<open>\<^verbatim>\<open>s.replace(old, new)\<close> for a non-empty \<^verbatim>\<open>old\<close>: leftmost non-overlapping
  occurrences.\<close>

fun str_replace :: "string \<Rightarrow> string \<Rightarrow> string \<Rightarrow> string" where
  "str_replace old new [] = []"
| "str_replace old new (c # cs) =
     (if old \<noteq> [] \<and> take (length old) (c # cs) = old
      then new @ str_replace old new (drop (length old) (c # cs))
      else c # str_replace old new cs)"

subsection \<open>Pegasus jobs\<close>

datatype namespace = CONDOR | ENV | PEGASUS | SELECTOR

record job =
  transformation :: string
  profiles :: "(namespace \<times> string \<times> string) list"
  inputs :: "string list"
  outputs :: "(string \<times> bool) list"
  args :: "string list"

definition Job :: "string \<Rightarrow> job" where
  "Job name = \<lparr>transformation = name, profiles = [], inputs = [], outputs = [], args = []\<rparr>"

definition add_profiles :: "namespace \<Rightarrow> string \<Rightarrow> string \<Rightarrow> job \<Rightarrow> job" where
  "add_profiles ns k v j = j\<lparr>profiles := profiles j @ [(ns, k, v)]\<rparr>"

definition add_inputs :: "string list \<Rightarrow> job \<Rightarrow> job" where
  "add_inputs fs j = j\<lparr>inputs := inputs j @ fs\<rparr>"

definition add_outputs :: "string \<Rightarrow> bool \<Rightarrow> job \<Rightarrow> job" where
  "add_outputs f stage_out j = j\<lparr>outputs := outputs j @ [(f, stage_out)]\<rparr>"

definition add_args :: "string list \<Rightarrow> job \<Rightarrow> job" where
  "add_args as j = j\<lparr>args := args j @ as\<rparr>"

text \<open>The value a profile key ends up with: the last call that set it.\<close>

definition profile :: "job \<Rightarrow> namespace \<Rightarrow> string \<Rightarrow> string option" where
  "profile j ns k = map_of (rev (map (\<lambda>(n, k', v). ((n, k'), v)) (profiles j))) (ns, k)"

subsection \<open>\<^verbatim>\<open>_initialize_job\<close>\<close>

definition memory_str :: "int \<Rightarrow> string" where
  "memory_str memory =
     ''ifthenelse(isundefined(DAGNodeRetry) || '' @
     ''DAGNodeRetry == 0, '' @ str_int memory @ '', (DAGNodeRetry + 1) * '' @ str_int memory @ '')''"

definition disk_str :: "int \<Rightarrow> string" where
  "disk_str disk =
     ''ifthenelse(isundefined(DAGNodeRetry) || '' @
     ''DAGNodeRetry == 0, '' @ str_int disk @ '', (DAGNodeRetry + 1) * '' @ str_int disk @ '')''"

definition initialize_job :: "string \<Rightarrow> bool \<Rightarrow> int \<Rightarrow> int \<Rightarrow> int \<Rightarrow> job" where
  "initialize_job name run_on_submit_node cores memory disk =
     (let job = add_profiles CONDOR ''request_cpus'' (str_int cores) (Job name)
      in if run_on_submit_node
         then add_profiles SELECTOR ''execution_site'' ''local'' job
         else add_profiles CONDOR ''request_memory'' (memory_str memory)
                (add_profiles CONDOR ''request_disk'' (disk_str disk) job))"

subsection \<open>The ClassAd fragment of the resource requests\<close>












subsection \<open>The submitter's attributes and its collaborators\<close>

datatype dirtype = SHARED_SCRATCH | LOCAL_STORAGE

record site =
  site_name :: string
  directories :: "(dirtype \<times> string \<times> string) list"
  site_profiles :: "(namespace \<times> string \<times> string) list"

record transformation_entry =
  tr_name :: string
  tr_site :: string
  tr_pfn :: string
  tr_stageable :: bool
  tr_profiles :: "(namespace \<times> string \<times> string) list"

text \<open>One \<^verbatim>\<open>add_replica(site, lfn, pfn)\<close> call.\<close>

type_synonym replica = "string \<times> string \<times> string"

record workflow =
  wf_name :: string
  jobs :: "job list"
  replica_catalog :: "replica list option"
  transformation_catalog :: "transformation_entry list option"
  site_catalog :: "site list option"

text \<open>
  The attributes of \<^verbatim>\<open>self\<close>. Those that \<^verbatim>\<open>__init__\<close> does not set are options, and reading
  one that is still \<open>None\<close> is Python's \<^verbatim>\<open>AttributeError\<close>. \<open>combine_n_jobs\<close>,
  \<open>statistical_model_config\<close> and \<open>debug\<close> come from the base class \<^verbatim>\<open>Submitter\<close>.
\<close>

record submitter =
  debug :: bool
  workflow_id :: string
  top_dir :: string
  work_dir :: string
  generated_dir :: string
  runs_dir :: string
  outputs_dir :: string
  template_path :: "string option"
  singularity_image :: string
  combine_n_outputs :: int
  combine_n_jobs :: int
  cluster_size :: int
  request_cpus :: int
  request_memory :: int
  request_disk :: int
  combine_disk :: int
  dagman_retry :: int
  dagman_maxidle :: int
  dagman_maxjobs :: int
  config_file_path :: string
  statistical_model_config :: string
  added_limit_threshold :: bool
  limit_threshold :: "pyval option"
  x509_user_proxy :: "string option"
  modified_statistical_model_config :: "string option"
  f_limit_threshold :: "string option"
  f_template_tarball :: "string option"
  f_running_configuration :: "string option"
  f_statistical_model_config :: "string option"
  f_run_toymc_wrapper :: "string option"
  f_alea_run_toymc :: "string option"
  f_combine :: "string option"
  wf :: "workflow option"
  sc :: "site list option"
  tc :: "transformation_entry list option"
  rc :: "replica list option"

text \<open>
  Two functions of the repository live outside this module and are parameters of the
  model: \<^verbatim>\<open>Submitter.runner_kwargs_from_script(shlex.split(script)[2:])\<close> as a function of
  the script, and the string \<^verbatim>\<open>_extract_all_to_tuple\<close> makes of one argument value
  (\<^verbatim>\<open>json.dumps(str(v))\<close> with blanks removed and quotes escaped).
\<close>

record externals =
  runner_kwargs :: "string \<Rightarrow> pyerror + pydict"
  arg_string :: "pyval \<Rightarrow> string"

datatype fsnode = FileNode string | DirNode string "fsnode list"

datatype fsentry = RegularFile | Directory "fsnode list"

datatype effect =
    RunShell string
  | MakeDirs string
  | DumpYaml string pyval
  | CreateTarball string "string list"
  | WriteWorkflow string workflow
  | Plan workflow bool
  | Graph string

text \<open>
  What the submit host answers and what has been done to it: the environment variables,
  the login name, what a path names (nothing, a file, or a directory with the tree below
  it), the seconds \<^verbatim>\<open>grid-proxy-info\<close> reports for a command line (or the error of
  running it and converting its output with \<^verbatim>\<open>int\<close>), what \<^verbatim>\<open>load_yaml\<close> returns for a
  path, and the effects so far, oldest first.
\<close>

record world =
  environ :: "string \<Rightarrow> string option"
  user :: string
  lookup :: "string \<Rightarrow> fsentry option"
  proxy_timeleft :: "string \<Rightarrow> pyerror + int"
  yaml_files :: "string \<Rightarrow> pyerror + pyval"
  effects :: "effect list"

subsection \<open>Properties of the class\<close>

definition template_tarball :: "submitter \<Rightarrow> string" where
  "template_tarball st = path_join (generated_dir st) ''templates.tar.gz''"

definition workflow_file :: "submitter \<Rightarrow> string" where
  "workflow_file st = path_join (generated_dir st) ''workflow.yml''"

definition requirements :: "submitter \<Rightarrow> string" where
  \<open>requirements st =
     (''HAS_SINGULARITY && HAS_CVMFS_xenon_opensciencegrid_org'' @
      '' && PORT_2880 && PORT_8000 && PORT_27017'' @
      '' && (Microarch >= "x86_64-v3")'') @
     (if debug st then '' && GLIDEIN_ResourceName == "MWT2" '' else [])\<close>

definition get_file_name :: "string \<Rightarrow> string" where
  "get_file_name file_path = basename file_path"

text \<open>\<^verbatim>\<open>os.path.basename\<close> of a Python value: a \<^verbatim>\<open>TypeError\<close> unless it is a string.\<close>

definition get_file_name_val :: "pyval \<Rightarrow> pyerror + string" where
  "get_file_name_val v = (case v of PStr p \<Rightarrow> Inr (get_file_name p) | _ \<Rightarrow> Inl TypeError)"

definition file_url :: "string \<Rightarrow> string" where
  "file_url p = ''file://'' @ p"

subsection \<open>The three catalogs\<close>

definition env_get :: "world \<Rightarrow> string \<Rightarrow> pyerror + string" where
  "env_get w k = (case environ w k of None \<Rightarrow> Inl (KeyError k) | Some v \<Rightarrow> Inr v)"

definition generate_sc :: "world \<Rightarrow> submitter \<Rightarrow> pyerror + site list" where
  "generate_sc w st =
     (let scratch = work_dir st @ ''/scratch/'' @ workflow_id st;
          storage = work_dir st @ ''/outputs/'' @ workflow_id st
      in andthen (env_get w ''HOME'') (\<lambda>home.
         andthen (env_get w ''USER'') (\<lambda>usr.
         andthen (env_get w ''X509_USER_PROXY'') (\<lambda>proxy.
         Inr [
           \<lparr>site_name = ''local'',
            directories = [(SHARED_SCRATCH, scratch, ''file:///'' @ scratch),
                           (LOCAL_STORAGE, storage, ''file:///'' @ storage)],
            site_profiles = [
              (ENV, ''HOME'', home),
              (ENV, ''GLOBUS_LOCATION'', []),
              (ENV, ''PATH'',
                 ''/cvmfs/xenon.opensciencegrid.org/releases/nT/development/anaconda/envs/XENONnT_development/bin:'' @
                 ''/cvmfs/xenon.opensciencegrid.org/releases/nT/development/anaconda/condabin:/usr/bin:/bin''),
              (ENV, ''LD_LIBRARY_PATH'',
                 ''/cvmfs/xenon.opensciencegrid.org/releases/nT/development/anaconda/envs/XENONnT_development/lib64:'' @
                 ''/cvmfs/xenon.opensciencegrid.org/releases/nT/development/anaconda/envs/XENONnT_development/lib''),
              (ENV, ''PEGASUS_SUBMITTING_USER'', usr),
              (ENV, ''X509_USER_PROXY'', proxy)]\<rparr>,
           \<lparr>site_name = ''staging-davs'',
            directories = [(SHARED_SCRATCH, ''/xenon/scratch/'' @ user w,
               ''gsidavs://xenon-gridftp.grid.uchicago.edu:2880/xenon/scratch/'' @ user w)],
            site_profiles = []\<rparr>,
           \<lparr>site_name = ''condorpool'',
            directories = [],
            site_profiles = [
              (PEGASUS, ''style'', ''condor''),
              (CONDOR, ''universe'', ''vanilla''),
              (CONDOR, ''+SingularityImage'', [CHR 0x22] @ singularity_image st @ [CHR 0x22]),
              (ENV, ''OSG_LOCATION'', []),
              (ENV, ''GLOBUS_LOCATION'', []),
              (ENV, ''PYTHONPATH'', []),
              (ENV, ''PERL5LIB'', []),
              (ENV, ''LD_LIBRARY_PATH'', []),
              (ENV, ''PEGASUS_SUBMITTING_USER'', usr),
              (CONDOR, ''x509userproxy'', proxy)]\<rparr>]))))"

definition generate_tc :: "submitter \<Rightarrow> transformation_entry list" where
  "generate_tc st =
     [\<lparr>tr_name = ''run_toymc_wrapper'', tr_site = ''local'',
       tr_pfn = path_join (top_dir st) ''alea/submitters/run_toymc_wrapper.sh'',
       tr_stageable = True,
       tr_profiles = [(PEGASUS, ''clusters_size'', str_int (cluster_size st))]\<rparr>,
      \<lparr>tr_name = ''combine'', tr_site = ''local'',
       tr_pfn = path_join (top_dir st) ''alea/submitters/combine.sh'',
       tr_stageable = True,
       tr_profiles = []\<rparr>]"

text \<open>\<^verbatim>\<open>_generate_rc\<close> sets the six file attributes as it goes, so an error leaves the ones
  before it set.\<close>

definition generate_rc :: "submitter \<Rightarrow> (pyerror \<times> submitter) + (replica list \<times> submitter)" where
  "generate_rc st =
     (let tarball = get_file_name (template_tarball st);
          conf = get_file_name (config_file_path st);
          st1 = st\<lparr>f_template_tarball := Some tarball, f_running_configuration := Some conf\<rparr>
      in case modified_statistical_model_config st1 of
           None \<Rightarrow> Inl (AttributeError, st1)
         | Some modified \<Rightarrow>
             Inr ([(''local'', tarball, file_url (template_tarball st)),
                   (''local'', conf, file_url (config_file_path st)),
                   (''local'', get_file_name modified, file_url modified),
                   (''local'', ''run_toymc_wrapper.sh'',
                      file_url (path_join (top_dir st) ''alea/submitters/run_toymc_wrapper.sh'')),
                   (''local'', ''alea_run_toymc'',
                      file_url (path_join (top_dir st) ''bin/alea_run_toymc'')),
                   (''local'', ''combine.sh'',
                      file_url (path_join (top_dir st) ''alea/submitters/combine.sh''))],
                  st1\<lparr>f_statistical_model_config := Some (get_file_name modified),
                      f_run_toymc_wrapper := Some ''run_toymc_wrapper.sh'',
                      f_alea_run_toymc := Some ''alea_run_toymc'',
                      f_combine := Some ''combine.sh''\<rparr>))"

subsection \<open>Tickets: \<^verbatim>\<open>_add_limit_threshold\<close>, \<^verbatim>\<open>_correct_paths_args_dict\<close>, \<^verbatim>\<open>_reorganize_script\<close>\<close>

definition the_attr :: "'a option \<Rightarrow> pyerror + 'a" where
  "the_attr a = (case a of None \<Rightarrow> Inl AttributeError | Some x \<Rightarrow> Inr x)"

definition add_limit_threshold :: "submitter \<Rightarrow> (pyerror \<times> submitter) + submitter" where
  "add_limit_threshold st =
     andthen (at st (the_attr (limit_threshold st))) (\<lambda>v.
     andthen (at st (get_file_name_val v)) (\<lambda>lfn.
     let st = st\<lparr>f_limit_threshold := Some lfn\<rparr> in
     andthen (at st (the_attr (rc st))) (\<lambda>r.
     andthen (at st (case v of PStr p \<Rightarrow> Inr (file_url p) | _ \<Rightarrow> Inl TypeError)) (\<lambda>pfn.
     Inr (st\<lparr>rc := Some (r @ [(''local'', lfn, pfn)]), added_limit_threshold := True\<rparr>)))))"

text \<open>The nested \<^verbatim>\<open>statistical_model_args\<close> is updated in place, so it keeps its position
  in \<^verbatim>\<open>args_dict\<close>. Item assignment on anything but a dict is a \<^verbatim>\<open>TypeError\<close>.\<close>

definition correct_paths_args_dict :: "submitter \<Rightarrow> pydict \<Rightarrow> pyerror + pydict" where
  "correct_paths_args_dict st args_dict =
     andthen (getitem args_dict ''statistical_model_args'') (\<lambda>sma.
     andthen (case sma of PDict d \<Rightarrow> Inr d | _ \<Rightarrow> Inl TypeError) (\<lambda>d.
     let d = setitem d ''template_path'' (PStr ''templates/'') in
     andthen (case map_of d ''limit_threshold'' of
                None \<Rightarrow> Inr d
              | Some v \<Rightarrow> andthen (get_file_name_val v) (\<lambda>limit_threshold.
                           Inr (setitem d ''limit_threshold'' (PStr limit_threshold)))) (\<lambda>d.
     let args_dict = setitem args_dict ''statistical_model_args'' (PDict d) in
     andthen (getitem args_dict ''toydata_filename'') (\<lambda>v.
     andthen (get_file_name_val v) (\<lambda>toydata.
     let args_dict = setitem args_dict ''toydata_filename'' (PStr toydata) in
     andthen (getitem args_dict ''output_filename'') (\<lambda>v.
     andthen (get_file_name_val v) (\<lambda>output.
     let args_dict = setitem args_dict ''output_filename'' (PStr output) in
     andthen (the_attr (modified_statistical_model_config st)) (\<lambda>modified.
     Inr (setitem args_dict ''statistical_model_config'' (PStr (get_file_name modified)))))))))))"

text \<open>\<^verbatim>\<open>str.split()\<close>: the maximal runs of non-blank characters.\<close>

definition is_space :: "char \<Rightarrow> bool" where
  "is_space c = (let n = (of_char c :: nat) in (9 \<le> n \<and> n \<le> 13) \<or> (28 \<le> n \<and> n \<le> 32))"

fun split_from :: "string \<Rightarrow> string \<Rightarrow> string list" where
  "split_from cur [] = (if cur = [] then [] else [rev cur])"
| "split_from cur (c # cs) =
     (if is_space c then (if cur = [] then split_from [] cs else rev cur # split_from [] cs)
      else split_from (c # cur) cs)"

definition str_split :: "string \<Rightarrow> string list" where
  "str_split s = split_from [] s"

definition reorganize_script ::
  "externals \<Rightarrow> submitter \<Rightarrow> string \<Rightarrow> (pyerror \<times> submitter) + (string \<times> pydict \<times> submitter)" where
  "reorganize_script ext st script =
     andthen (at st (case str_split script of
                       _ # exe # _ \<Rightarrow> Inr (get_file_name exe)
                     | _ \<Rightarrow> Inl IndexError)) (\<lambda>executable.
     andthen (at st (runner_kwargs ext script)) (\<lambda>args_dict.
     andthen (if added_limit_threshold st then Inr st
              else andthen (at st (getitem args_dict ''statistical_model_args'')) (\<lambda>sma.
                   andthen (at st (case sma of PDict d \<Rightarrow> Inr d | _ \<Rightarrow> Inl AttributeError)) (\<lambda>d.
                   case map_of d ''limit_threshold'' of
                     None \<Rightarrow> Inr st
                   | Some v \<Rightarrow> add_limit_threshold (st\<lparr>limit_threshold := Some v\<rparr>)))) (\<lambda>st.
     andthen (at st (correct_paths_args_dict st args_dict)) (\<lambda>args_dict.
     Inr (executable, args_dict, st)))))"

subsection \<open>\<^verbatim>\<open>_add_combine_job\<close> and the loop of \<^verbatim>\<open>_generate_workflow\<close>\<close>

text \<open>
  A job object is shared between the workflow it was added to and the variable that
  holds it: the workflow's job list is the store, and a job variable that is used after
  \<^verbatim>\<open>add_jobs\<close> holds an index into it.
\<close>

definition wf_add_jobs :: "job \<Rightarrow> submitter \<Rightarrow> (pyerror \<times> submitter) + (nat \<times> submitter)" where
  "wf_add_jobs j st =
     andthen (at st (the_attr (wf st))) (\<lambda>w.
     Inr (length (jobs w), st\<lparr>wf := Some (w\<lparr>jobs := jobs w @ [j]\<rparr>)\<rparr>))"

definition job_add_inputs ::
  "nat option \<Rightarrow> string list \<Rightarrow> submitter \<Rightarrow> (pyerror \<times> submitter) + submitter" where
  "job_add_inputs ref fs st =
     andthen (at st (case ref of None \<Rightarrow> Inl UnboundLocalError | Some i \<Rightarrow> Inr i)) (\<lambda>i.
     andthen (at st (the_attr (wf st))) (\<lambda>w.
     Inr (st\<lparr>wf := Some (w\<lparr>jobs := (jobs w)[i := add_inputs fs (jobs w ! i)]\<rparr>)\<rparr>)))"

definition add_combine_job :: "submitter \<Rightarrow> int \<Rightarrow> (pyerror \<times> submitter) + (nat \<times> submitter)" where
  "add_combine_job st combine_i =
     (let combine_job = initialize_job ''combine'' False
                          (request_cpus st) (request_memory st * 2) (combine_disk st);
          combine_job = add_profiles CONDOR ''requirements'' (requirements st) combine_job;
          combine_job = add_outputs
                          (workflow_id st @ ''-'' @ str_int combine_i @ ''-combined_output.tar.gz'')
                          True combine_job;
          combine_job = add_args [workflow_id st @ ''-'' @ str_int combine_i] combine_job
      in wf_add_jobs combine_job st)"

text \<open>\<^verbatim>\<open>File(lfn)\<close> wants a string.\<close>

definition File :: "pyval \<Rightarrow> pyerror + string" where
  "File v = (case v of PStr lfn \<Rightarrow> Inr lfn | _ \<Rightarrow> Inl TypeError)"

definition workflow_inputs :: "submitter \<Rightarrow> pyerror + string list" where
  "workflow_inputs st =
     andthen (the_attr (f_template_tarball st)) (\<lambda>a.
     andthen (the_attr (f_running_configuration st)) (\<lambda>b.
     andthen (the_attr (f_statistical_model_config st)) (\<lambda>c.
     andthen (the_attr (f_run_toymc_wrapper st)) (\<lambda>d.
     andthen (the_attr (f_alea_run_toymc st)) (\<lambda>e.
     andthen (the_attr (f_combine st)) (\<lambda>f.
     Inr [a, b, c, d, e, f]))))))"

text \<open>The part of the loop body after the toy-data mode has been accepted: lines 590 to
  631.\<close>

definition build_job ::
  "externals \<Rightarrow> string \<Rightarrow> submitter \<Rightarrow> pydict \<Rightarrow> pyval \<Rightarrow> nat option \<Rightarrow>
   (pyerror \<times> submitter) + submitter" where
  "build_job ext name st args_dict mode combine_job =
     (let job = initialize_job name False (request_cpus st) (request_memory st) (request_disk st);
          job = add_profiles CONDOR ''requirements'' (requirements st) job
      in andthen (at st (workflow_inputs st)) (\<lambda>fs.
         let job = add_inputs fs job in
         andthen (if added_limit_threshold st
                  then andthen (at st (the_attr (f_limit_threshold st))) (\<lambda>f.
                       Inr (add_inputs [f] job))
                  else Inr job) (\<lambda>job.
         andthen (at st (andthen (getitem args_dict ''output_filename'') File)) (\<lambda>out.
         let job = add_outputs out False job in
         andthen (job_add_inputs combine_job [out] st) (\<lambda>st.
         andthen (if mode = PStr ''generate_and_store''
                  then andthen (at st (andthen (getitem args_dict ''toydata_filename'') File)) (\<lambda>toy.
                       andthen (job_add_inputs combine_job [toy] st) (\<lambda>st.
                       Inr (add_outputs toy False job, st)))
                  else Inr (job, st)) (\<lambda>(job, st).
         let job = add_args (map (\<lambda>(key, v). arg_string ext v) args_dict) job in
         andthen (wf_add_jobs job st) (\<lambda>(_, st). Inr st)))))))"

record loop_vars =
  combine_i :: int
  new_to_combine :: bool
  combine_job :: "nat option"

definition ticket_step ::
  "externals \<Rightarrow> string \<Rightarrow> submitter \<Rightarrow> loop_vars \<Rightarrow> int \<Rightarrow> string \<Rightarrow>
   (pyerror \<times> submitter) + (submitter \<times> loop_vars)" where
  "ticket_step ext name st lv job_id script =
     andthen (if new_to_combine lv
              then andthen (add_combine_job st (combine_i lv)) (\<lambda>(r, st). Inr (Some r, st))
              else Inr (combine_job lv, st)) (\<lambda>(cj, st).
     andthen (reorganize_script ext st script) (\<lambda>(executable, args_dict, st).
     andthen (at st (getitem args_dict ''toydata_mode'')) (\<lambda>mode.
     if mode \<notin> set [PStr ''generate_and_store'', PStr ''generate'']
     then Inl (NotImplementedError ''Only generate_and_store toydata mode is supported on OSG.'', st)
     else andthen (build_job ext name st args_dict mode cj) (\<lambda>st.
          if combine_n_outputs st = 0 then Inl (ZeroDivisionError, st)
          else if (job_id + 1) mod combine_n_outputs st = 0
          then Inr (st, \<lparr>combine_i = combine_i lv + 1, new_to_combine = True, combine_job = cj\<rparr>)
          else Inr (st, \<lparr>combine_i = combine_i lv, new_to_combine = False, combine_job = cj\<rparr>)))))"

fun tickets_loop ::
  "externals \<Rightarrow> string \<Rightarrow> submitter \<Rightarrow> loop_vars \<Rightarrow> int \<Rightarrow> string list \<Rightarrow>
   (pyerror \<times> submitter) + (submitter \<times> loop_vars)" where
  "tickets_loop ext name st lv job_id [] = Inr (st, lv)"
| "tickets_loop ext name st lv job_id (script # rest) =
     andthen (ticket_step ext name st lv job_id script) (\<lambda>(st, lv).
     tickets_loop ext name st lv (job_id + 1) rest)"

subsection \<open>\<^verbatim>\<open>_generate_workflow\<close>\<close>

definition Workflow :: "string \<Rightarrow> workflow" where
  "Workflow name = \<lparr>wf_name = name, jobs = [], replica_catalog = None,
                     transformation_catalog = None, site_catalog = None\<rparr>"

definition generate_workflow ::
  "externals \<Rightarrow> world \<Rightarrow> string \<Rightarrow> submitter \<Rightarrow> string list \<Rightarrow>
   (pyerror \<times> submitter) + (submitter \<times> world)" where
  "generate_workflow ext w name st tickets =
     (if combine_n_jobs st \<noteq> 1
      then Inl (ValueError (''SubmitterHTCondor can not combine jobs '' @
                  ''but can only combine outputs so please set '' @
                  str_int (combine_n_jobs st) @ '' to 1.''), st)
      else
        let st = st\<lparr>wf := Some (Workflow ''alea_workflow'')\<rparr> in
        andthen (at st (generate_sc w st)) (\<lambda>s.
        let st = st\<lparr>sc := Some s\<rparr>;
            st = st\<lparr>tc := Some (generate_tc st)\<rparr> in
        andthen (generate_rc st) (\<lambda>(r, st).
        let st = st\<lparr>rc := Some r\<rparr>;
            lv = \<lparr>combine_i = 0, new_to_combine = True, combine_job = None\<rparr> in
        andthen (tickets_loop ext name st lv 0 tickets) (\<lambda>(st, lv).
        andthen (at st (the_attr (wf st))) (\<lambda>wfl.
        let wfl = wfl\<lparr>replica_catalog := rc st, transformation_catalog := tc st,
                      site_catalog := sc st\<rparr>
        in Inr (st\<lparr>wf := Some wfl\<rparr>,
                w\<lparr>effects := effects w @ [WriteWorkflow (workflow_file st) wfl]\<rparr>))))))"

subsection \<open>The pre-flight checks and \<^verbatim>\<open>submit\<close>\<close>

text \<open>\<^verbatim>\<open>os.path.exists\<close>, \<^verbatim>\<open>os.makedirs(path, exist_ok=True)\<close> and \<^verbatim>\<open>os.walk\<close> on the host's
  answers. \<^verbatim>\<open>os.walk\<close> visits a directory before its subdirectories and yields nothing
  for a path that is not a directory.\<close>

definition path_exists :: "world \<Rightarrow> string \<Rightarrow> bool" where
  "path_exists w p = (lookup w p \<noteq> None)"

definition makedirs :: "string \<Rightarrow> world \<Rightarrow> pyerror + world" where
  "makedirs p w =
     (case lookup w p of
        Some RegularFile \<Rightarrow> Inl FileExistsError
      | Some (Directory _) \<Rightarrow> Inr (w\<lparr>effects := effects w @ [MakeDirs p]\<rparr>)
      | None \<Rightarrow> Inr (w\<lparr>lookup := (lookup w)(p \<mapsto> Directory []),
                        effects := effects w @ [MakeDirs p]\<rparr>))"

fun walk :: "string \<Rightarrow> fsnode list \<Rightarrow> (string \<times> string list \<times> string list) list" where
  "walk dirpath entries =
     (dirpath, [n. DirNode n _ \<leftarrow> entries], [n. FileNode n \<leftarrow> entries]) #
     concat (map (\<lambda>e. case e of DirNode n ch \<Rightarrow> walk (path_join dirpath n) ch
                              | FileNode _ \<Rightarrow> []) entries)"

declare walk.simps [simp del]

definition os_walk :: "world \<Rightarrow> string \<Rightarrow> (string \<times> string list \<times> string list) list" where
  "os_walk w p = (case lookup w p of Some (Directory entries) \<Rightarrow> walk p entries | _ \<Rightarrow> [])"

text \<open>\<^verbatim>\<open>_validate_x509_proxy\<close> with its default of 20 hours. The comparison
  \<^verbatim>\<open>int(out) / 60 / 60 < 20\<close> is made on the seconds.\<close>

definition validate_x509_proxy ::
  "world \<Rightarrow> submitter \<Rightarrow> (pyerror \<times> submitter \<times> world) + (submitter \<times> world)" where
  "validate_x509_proxy w st =
     (let min_valid_hours = (20 :: int);
          st = st\<lparr>x509_user_proxy := environ w ''X509_USER_PROXY''\<rparr>
      in case x509_user_proxy st of
           None \<Rightarrow> Inl (AssertionError
                         ''Please provide a valid X509_USER_PROXY environment variable.'', st, w)
         | Some proxy \<Rightarrow>
             if proxy = []
             then Inl (AssertionError
                         ''Please provide a valid X509_USER_PROXY environment variable.'', st, w)
             else
               let cmd = ''grid-proxy-info -timeleft -file '' @ proxy;
                   w = w\<lparr>effects := effects w @ [RunShell cmd]\<rparr>
               in (case proxy_timeleft w cmd of
                     Inl e \<Rightarrow> Inl (e, st, w)
                   | Inr secs \<Rightarrow>
                       if secs < min_valid_hours * 60 * 60
                       then Inl (RuntimeError
                                   (''User proxy is only valid for '' @
                                    str_int (if secs < 0 then - ((- secs) div 3600) else secs div 3600) @
                                    '' hours. Minimum required is '' @ str_int min_valid_hours @
                                    '' hours.''), st, w)
                       else Inr (st, w)))"

text \<open>\<^verbatim>\<open>update_template_filenames\<close>: \<^verbatim>\<open>value.split("/")[-1]\<close> is what follows the last
  slash, and fails with an \<^verbatim>\<open>AttributeError\<close> on a value that is not a string.\<close>

fun update_template_filenames :: "pyval \<Rightarrow> pyerror + pyval"
  and update_items :: "(string \<times> pyval) list \<Rightarrow> pyerror + (string \<times> pyval) list"
  and update_list :: "pyval list \<Rightarrow> pyerror + pyval list" where
  "update_template_filenames (PDict d) = andthen (update_items d) (\<lambda>d. Inr (PDict d))"
| "update_template_filenames (PList l) = andthen (update_list l) (\<lambda>l. Inr (PList l))"
| "update_template_filenames v = Inr v"
| "update_items [] = Inr []"
| "update_items ((key, v) # rest) =
     andthen (if key = ''template_filename''
              then (case v of PStr s \<Rightarrow> Inr (PStr (basename s)) | _ \<Rightarrow> Inl AttributeError)
              else update_template_filenames v) (\<lambda>v.
     andthen (update_items rest) (\<lambda>rest. Inr ((key, v) # rest)))"
| "update_list [] = Inr []"
| "update_list (v # rest) =
     andthen (update_template_filenames v) (\<lambda>v.
     andthen (update_list rest) (\<lambda>rest. Inr (v # rest)))"

definition modify_yaml ::
  "world \<Rightarrow> submitter \<Rightarrow> (pyerror \<times> submitter \<times> world) + (submitter \<times> world)" where
  "modify_yaml w st =
     (let output_file = str_replace ''.yaml'' ''_modified.yaml''
                          (get_file_name (statistical_model_config st));
          modified = path_join (generated_dir st) output_file;
          st = st\<lparr>modified_statistical_model_config := Some modified\<rparr>
      in andthen (at (st, w) (yaml_files w (statistical_model_config st))) (\<lambda>data.
         andthen (at (st, w) (update_template_filenames data)) (\<lambda>data.
         Inr (st, w\<lparr>effects := effects w @ [DumpYaml modified data]\<rparr>))))"

text \<open>\<^verbatim>\<open>_validate_template_path\<close>; what it logs is left out, but \<^verbatim>\<open>os.listdir\<close> in
  \<^verbatim>\<open>_contains_subdirectories\<close> raises on a path that is a file.\<close>

definition validate_template_path :: "world \<Rightarrow> submitter \<Rightarrow> pyerror + unit" where
  "validate_template_path w st =
     (case template_path st of
        None \<Rightarrow> Inl (ValueError ''Please provide a template path.'')
      | Some p \<Rightarrow>
          if \<not> path_exists w p then Inl (ValueError (''Path '' @ p @ '' does not exist.''))
          else (case lookup w p of Some RegularFile \<Rightarrow> Inl NotADirectoryError | _ \<Rightarrow> Inr ()))"

definition all_files :: "world \<Rightarrow> string \<Rightarrow> string list" where
  "all_files w p = concat (map (\<lambda>(dirpath, dirnames, filenames). filenames) (os_walk w p))"

definition check_filename_unique :: "world \<Rightarrow> submitter \<Rightarrow> pyerror + unit" where
  "check_filename_unique w st =
     andthen (case template_path st of None \<Rightarrow> Inl TypeError | Some p \<Rightarrow> Inr p) (\<lambda>p.
     if length (all_files w p) \<noteq> length (remdups (all_files w p))
     then Inl (RuntimeError ''All files in the template path must have unique names.'')
     else Inr ())"

definition endswith :: "string \<Rightarrow> string \<Rightarrow> bool" where
  "endswith s suffix = (length suffix \<le> length s \<and> drop (length s - length suffix) s = suffix)"

definition tar_h5_files :: "string \<Rightarrow> string \<Rightarrow> world \<Rightarrow> world" where
  "tar_h5_files directory output_filename w =
     w\<lparr>effects := effects w @
          [CreateTarball output_filename
             (map basename (filter (\<lambda>filename. endswith filename ''.h5'') (all_files w directory)))]\<rparr>"

definition make_template_tarball :: "world \<Rightarrow> submitter \<Rightarrow> pyerror + world" where
  "make_template_tarball w st =
     andthen (case template_path st of None \<Rightarrow> Inl TypeError | Some p \<Rightarrow> Inr p) (\<lambda>p.
     Inr (tar_h5_files p (template_tarball st) w))"

definition plan_and_submit :: "world \<Rightarrow> submitter \<Rightarrow> pyerror + world" where
  "plan_and_submit w st =
     andthen (the_attr (wf st)) (\<lambda>wfl.
     Inr (w\<lparr>effects := effects w @ [Plan wfl (\<not> debug st)]\<rparr>))"

definition submit ::
  "externals \<Rightarrow> world \<Rightarrow> submitter \<Rightarrow> string list \<Rightarrow>
   (pyerror \<times> submitter \<times> world) + (submitter \<times> world)" where
  "submit ext w st tickets =
     (if path_exists w (runs_dir st)
      then Inl (RuntimeError (''Workflow already exists at '' @ runs_dir st @ ''. Exiting.''), st, w)
      else
        andthen (validate_x509_proxy w st) (\<lambda>(st, w).
        andthen (at (st, w) (makedirs (generated_dir st) w)) (\<lambda>w.
        andthen (at (st, w) (makedirs (runs_dir st) w)) (\<lambda>w.
        andthen (at (st, w) (makedirs (outputs_dir st) w)) (\<lambda>w.
        andthen (modify_yaml w st) (\<lambda>(st, w).
        andthen (at (st, w) (validate_template_path w st)) (\<lambda>_.
        andthen (at (st, w) (check_filename_unique w st)) (\<lambda>_.
        andthen (at (st, w) (make_template_tarball w st)) (\<lambda>w.
        andthen (case generate_workflow ext w ''run_toymc_wrapper'' st tickets of
                   Inl (e, st) \<Rightarrow> Inl (e, st, w)
                 | Inr r \<Rightarrow> Inr r) (\<lambda>(st, w).
        andthen (at (st, w) (plan_and_submit w st)) (\<lambda>w.
        let w = (if debug st
                 then w\<lparr>effects := effects w @
                          [Graph (path_join (outputs_dir st) ''workflow_graph.dot''),
                           Graph (path_join (outputs_dir st) ''workflow_graph.svg'')]\<rparr>
                 else w)
        in Inr (st, w))))))))))))"

subsection \<open>A small run, used to instantiate the theorems\<close>

definition ex_submitter :: submitter where
  "ex_submitter =
     \<lparr>debug = False,
      workflow_id = ''wf'',
      top_dir = ''/opt/alea'',
      work_dir = ''/scratch/u/workflows'',
      generated_dir = ''/scratch/u/workflows/generated/wf'',
      runs_dir = ''/scratch/u/workflows/runs/wf'',
      outputs_dir = ''/scratch/u/workflows/outputs/wf'',
      template_path = Some ''/home/u/templates'',
      singularity_image = ''/cvmfs/img'',
      combine_n_outputs = 2,
      combine_n_jobs = 1,
      cluster_size = 1,
      request_cpus = 1,
      request_memory = 2000,
      request_disk = 2000000,
      combine_disk = 20000000,
      dagman_retry = 2,
      dagman_maxidle = 100000,
      dagman_maxjobs = 100000,
      config_file_path = ''/home/u/run.yaml'',
      statistical_model_config = ''/home/u/model.yaml'',
      added_limit_threshold = False,
      limit_threshold = None,
      x509_user_proxy = None,
      modified_statistical_model_config = None,
      f_limit_threshold = None,
      f_template_tarball = None,
      f_running_configuration = None,
      f_statistical_model_config = None,
      f_run_toymc_wrapper = None,
      f_alea_run_toymc = None,
      f_combine = None,
      wf = None, sc = None, tc = None, rc = None\<rparr>"

text \<open>The same submitter once \<^verbatim>\<open>_modify_yaml\<close> has run.\<close>

definition ex_prepared :: submitter where
  "ex_prepared = ex_submitter\<lparr>modified_statistical_model_config :=
                                 Some ''/scratch/u/workflows/generated/wf/model_modified.yaml''\<rparr>"

definition ex_args :: "string \<Rightarrow> string option \<Rightarrow> string \<Rightarrow> pydict" where
  "ex_args mode threshold n =
     [(''statistical_model'', PStr ''alea.examples.Model''),
      (''statistical_model_config'', PStr ''/home/u/model.yaml''),
      (''statistical_model_args'',
         PDict ((''template_path'', PStr ''/home/u/templates'') #
                (case threshold of None \<Rightarrow> [] | Some p \<Rightarrow> [(''limit_threshold'', PStr p)]))),
      (''n_mc'', PInt 10),
      (''toydata_mode'', PStr mode),
      (''toydata_filename'', PStr (''/home/u/out/toy_'' @ n @ ''.h5'')),
      (''output_filename'', PStr (''/home/u/out/fit_'' @ n @ ''.h5''))]"

definition ex_ext :: externals where
  "ex_ext =
     \<lparr>runner_kwargs = (\<lambda>script.
        if script = ''python3 /opt/alea/bin/alea_run_toymc 0''
          then Inr (ex_args ''generate'' None ''0'')
        else if script = ''python3 /opt/alea/bin/alea_run_toymc 1''
          then Inr (ex_args ''generate_and_store'' (Some ''/home/u/thresholds/lt.json'') ''1'')
        else if script = ''python3 /opt/alea/bin/alea_run_toymc 2''
          then Inr (ex_args ''generate'' None ''2'')
        else if script = ''python3 /opt/alea/bin/alea_run_toymc 3''
          then Inr (ex_args ''read'' None ''3'')
        else if script = ''python3 /opt/alea/bin/alea_run_toymc 4''
          then Inr (ex_args ''generate'' (Some ''/home/u/thresholds/lt.json'') ''4'')
        else Inl (ExternalError ''unknown script'')),
      arg_string = (\<lambda>v. case v of PStr s \<Rightarrow> s | _ \<Rightarrow> [])\<rparr>"

definition ex_tickets :: "string list" where
  "ex_tickets = [''python3 /opt/alea/bin/alea_run_toymc 0'',
                 ''python3 /opt/alea/bin/alea_run_toymc 1'',
                 ''python3 /opt/alea/bin/alea_run_toymc 2'']"

text \<open>Tickets of which two name the same limit-threshold file.\<close>

definition ex_threshold_tickets :: "string list" where
  "ex_threshold_tickets = [''python3 /opt/alea/bin/alea_run_toymc 0'',
                           ''python3 /opt/alea/bin/alea_run_toymc 1'',
                           ''python3 /opt/alea/bin/alea_run_toymc 4'']"

definition ex_world :: world where
  "ex_world =
     \<lparr>environ = [''HOME'' \<mapsto> ''/home/u'', ''USER'' \<mapsto> ''u'', ''X509_USER_PROXY'' \<mapsto> ''/home/u/proxy''],
      user = ''u'',
      lookup = [''/home/u/templates'' \<mapsto>
                  Directory [DirNode ''signal'' [FileNode ''a.h5''],
                             DirNode ''background'' [FileNode ''b.h5'', FileNode ''notes.txt'']]],
      proxy_timeleft = (\<lambda>cmd. Inr 86400),
      yaml_files = (\<lambda>p. Inr (PDict [(''sources'',
                      PList [PDict [(''name'', PStr ''signal''),
                                    (''template_filename'', PStr ''signal/a.h5'')]])])),
      effects = []\<rparr>"

text \<open>The arguments of the second ticket as \<^verbatim>\<open>_correct_paths_args_dict\<close> returns them.\<close>

definition ex_rewritten :: pydict where
  "ex_rewritten =
     [(''statistical_model'', PStr ''alea.examples.Model''),
      (''statistical_model_config'', PStr ''model_modified.yaml''),
      (''statistical_model_args'',
         PDict [(''template_path'', PStr ''templates/''), (''limit_threshold'', PStr ''lt.json'')]),
      (''n_mc'', PInt 10),
      (''toydata_mode'', PStr ''generate_and_store''),
      (''toydata_filename'', PStr ''toy_1.h5''),
      (''output_filename'', PStr ''fit_1.h5'')]"

text \<open>The same host with a template directory that holds \<^verbatim>\<open>x.h5\<close> in two subdirectories.\<close>

definition ex_dup_world :: world where
  "ex_dup_world =
     ex_world\<lparr>lookup := [''/home/u/templates'' \<mapsto>
                  Directory [DirNode ''signal'' [FileNode ''x.h5''],
                             DirNode ''background'' [FileNode ''x.h5'']]]\<rparr>"

subsection \<open>Notions used to state the properties\<close>

definition is_tarball :: "effect \<Rightarrow> bool" where
  "is_tarball e = (case e of CreateTarball _ _ \<Rightarrow> True | _ \<Rightarrow> False)"

text \<open>From \<open>w\<close> to \<open>w'\<close> no archive was created and a directory at \<open>p\<close> kept its tree.\<close>

definition keeps :: "string \<Rightarrow> world \<Rightarrow> world \<Rightarrow> bool" where
  "keeps p w w' \<longleftrightarrow>
     filter is_tarball (effects w') = filter is_tarball (effects w) \<and>
     (\<forall>es. lookup w p = Some (Directory es) \<longrightarrow> lookup w' p = Some (Directory es))"

text \<open>The jobs of the workflow under construction, those of the \<^verbatim>\<open>combine\<close> transformation
  among them and the others, in the order they were added, and the logical names of a
  job's declared outputs.\<close>

definition the_jobs :: "submitter \<Rightarrow> job list" where
  "the_jobs st = (case wf st of Some w \<Rightarrow> jobs w | None \<Rightarrow> [])"

definition is_combine :: "job \<Rightarrow> bool" where
  "is_combine j = (transformation j = ''combine'')"

definition combine_jobs :: "submitter \<Rightarrow> job list" where
  "combine_jobs st = filter is_combine (the_jobs st)"

definition compute_jobs :: "submitter \<Rightarrow> job list" where
  "compute_jobs st = filter (\<lambda>j. \<not> is_combine j) (the_jobs st)"

definition out_lfns :: "job \<Rightarrow> string list" where
  "out_lfns j = map fst (outputs j)"

text \<open>The job variable \<open>ref\<close> holds the combine job that was added last.\<close>

definition points_last :: "submitter \<Rightarrow> nat option \<Rightarrow> bool" where
  "points_last st ref \<longleftrightarrow>
     (\<exists>A c B. the_jobs st = A @ c # B \<and> ref = Some (length A) \<and> is_combine c \<and>
              (\<forall>b \<in> set B. \<not> is_combine b))"

text \<open>What a ticket says about the limit threshold and the toy-data mode, read from the
  mapping \<^verbatim>\<open>runner_kwargs_from_script\<close> returns for it.\<close>

definition ticket_limit_threshold :: "externals \<Rightarrow> string \<Rightarrow> pyval option" where
  "ticket_limit_threshold ext script =
     (case runner_kwargs ext script of
        Inr kw \<Rightarrow> (case map_of kw ''statistical_model_args'' of
                     Some (PDict d) \<Rightarrow> map_of d ''limit_threshold''
                   | _ \<Rightarrow> None)
      | Inl _ \<Rightarrow> None)"

definition ticket_field :: "externals \<Rightarrow> string \<Rightarrow> string \<Rightarrow> pyval option" where
  "ticket_field ext script k =
     (case runner_kwargs ext script of Inr kw \<Rightarrow> map_of kw k | Inl _ \<Rightarrow> None)"

text \<open>The limit threshold of the first ticket, in order, that has one.\<close>

definition first_threshold :: "externals \<Rightarrow> string list \<Rightarrow> pyval option" where
  "first_threshold ext tickets =
     (case List.map_filter (ticket_limit_threshold ext) tickets of [] \<Rightarrow> None | v # _ \<Rightarrow> Some v)"

text \<open>The loop variables before the first ticket.\<close>

definition lv_init :: loop_vars where
  "lv_init = \<lparr>combine_i = 0, new_to_combine = True, combine_job = None\<rparr>"

text \<open>
  A ticket that the loop body can process: the script has an executable token,
  \<^verbatim>\<open>runner_kwargs_from_script\<close> returns a mapping whose \<open>statistical_model_args\<close> is a
  mapping (with a string for \<open>limit_threshold\<close> if it has one), whose two file names are
  strings and whose \<open>toydata_mode\<close> is one of the two supported modes.
\<close>

definition is_str :: "pyval option \<Rightarrow> bool" where
  "is_str v = (case v of Some (PStr _) \<Rightarrow> True | _ \<Rightarrow> False)"

definition well_formed :: "externals \<Rightarrow> string \<Rightarrow> bool" where
  "well_formed ext script \<longleftrightarrow>
     (case str_split script of _ # _ # _ \<Rightarrow> True | _ \<Rightarrow> False) \<and>
     (case runner_kwargs ext script of
        Inl _ \<Rightarrow> False
      | Inr kw \<Rightarrow>
          (case map_of kw ''statistical_model_args'' of
             Some (PDict d) \<Rightarrow> (map_of d ''limit_threshold'' = None
                                \<or> is_str (map_of d ''limit_threshold''))
           | _ \<Rightarrow> False) \<and>
          is_str (map_of kw ''toydata_filename'') \<and>
          is_str (map_of kw ''output_filename'') \<and>
          (map_of kw ''toydata_mode'' = Some (PStr ''generate_and_store'')
           \<or> map_of kw ''toydata_mode'' = Some (PStr ''generate'')))"

text \<open>The attributes the loop body reads are set.\<close>

definition ready :: "submitter \<Rightarrow> bool" where
  "ready st \<longleftrightarrow>
     wf st \<noteq> None \<and> rc st \<noteq> None \<and> (\<exists>six. workflow_inputs st = Inr six) \<and>
     modified_statistical_model_config st \<noteq> None \<and> combine_n_outputs st \<noteq> 0 \<and>
     (added_limit_threshold st \<longrightarrow> f_limit_threshold st \<noteq> None)"



section \<open>Properties\<close>

subsection \<open>Sequencing\<close>

lemma andthen_simps [simp]:
  "andthen (Inl e) f = Inl e" "andthen (Inr x) f = f x"
  by (simp_all add: andthen_def)

lemma at_simps [simp]:
  "at st (Inl e) = Inl (e, st)" "at st (Inr x) = Inr x"
  by (simp_all add: at_def)

lemma andthen_Inr_iff: "andthen m f = Inr y \<longleftrightarrow> (\<exists>x. m = Inr x \<and> f x = Inr y)"
  by (cases m) simp_all

lemma at_Inr_iff: "at st m = Inr y \<longleftrightarrow> m = Inr y"
  by (cases m) simp_all

subsection \<open>Resource requests\<close>

lemma str_int_0: "str_int 0 = ''0''"
  by (simp add: str_int_def str_nat.simps digit_char_def)

lemma str_int_1: "str_int 1 = ''1''"
  by (simp add: str_int_def str_nat.simps digit_char_def)












text \<open>
  C9. With \<^verbatim>\<open>run_on_submit_node\<close> true the job that \<^verbatim>\<open>_initialize_job\<close> returns has exactly
  two profiles, the core count and the pin to the local site: no memory request, no disk
  request and no requirements are attached, and it has no inputs, outputs or arguments.
\<close>

theorem initialize_job_on_submit_host:
  "initialize_job name True cores memory disk =
     \<lparr>transformation = name,
      profiles = [(CONDOR, ''request_cpus'', str_int cores),
                  (SELECTOR, ''execution_site'', ''local'')],
      inputs = [], outputs = [], args = []\<rparr>
   \<and> profile (initialize_job name True cores memory disk) CONDOR ''request_memory'' = None
   \<and> profile (initialize_job name True cores memory disk) CONDOR ''request_disk'' = None
   \<and> profile (initialize_job name True cores memory disk) CONDOR ''requirements'' = None"
  by (simp add: initialize_job_def Job_def add_profiles_def profile_def)

subsection \<open>The guards of \<^verbatim>\<open>_generate_workflow\<close> and \<^verbatim>\<open>submit\<close>\<close>

text \<open>
  C6. When \<open>combine_n_jobs\<close> is not 1, \<^verbatim>\<open>_generate_workflow\<close> raises the \<^verbatim>\<open>ValueError\<close> and
  leaves every attribute as it was: no workflow object, no catalog and no job has been
  made, and nothing is written.
\<close>

theorem combine_n_jobs_rejected:
  "combine_n_jobs st \<noteq> 1 \<Longrightarrow>
   generate_workflow ext w name st tickets =
     Inl (ValueError (''SubmitterHTCondor can not combine jobs '' @
                      ''but can only combine outputs so please set '' @
                      str_int (combine_n_jobs st) @ '' to 1.''), st)"
  by (simp add: generate_workflow_def)

theorem combine_n_jobs_rejected_witness:
  "combine_n_jobs (ex_prepared\<lparr>combine_n_jobs := 2\<rparr>) \<noteq> 1 \<and>
   generate_workflow ex_ext ex_world ''run_toymc_wrapper'' (ex_prepared\<lparr>combine_n_jobs := 2\<rparr>)
       ex_tickets =
     Inl (ValueError (''SubmitterHTCondor can not combine jobs '' @
                      ''but can only combine outputs so please set '' @
                      str_int 2 @ '' to 1.''), ex_prepared\<lparr>combine_n_jobs := 2\<rparr>)"
  using combine_n_jobs_rejected [of "ex_prepared\<lparr>combine_n_jobs := 2\<rparr>" ex_ext ex_world
      "''run_toymc_wrapper''" ex_tickets]
  by simp

text \<open>
  C8. When the run directory exists, \<^verbatim>\<open>submit\<close> raises the \<^verbatim>\<open>RuntimeError\<close> at once: the
  attributes and the host are returned as they were, so no credential check has run, no
  directory was made, and no catalog or job was built.
\<close>

theorem submit_existing_run_directory:
  "path_exists w (runs_dir st) \<Longrightarrow>
   submit ext w st tickets =
     Inl (RuntimeError (''Workflow already exists at '' @ runs_dir st @ ''. Exiting.''), st, w)"
  by (simp add: submit_def)

theorem submit_existing_run_directory_witness:
  "path_exists (ex_world\<lparr>lookup := (lookup ex_world)(runs_dir ex_submitter \<mapsto> Directory [])\<rparr>)
     (runs_dir ex_submitter)
   \<and> submit ex_ext
        (ex_world\<lparr>lookup := (lookup ex_world)(runs_dir ex_submitter \<mapsto> Directory [])\<rparr>)
        ex_submitter ex_tickets =
      Inl (RuntimeError (''Workflow already exists at '' @ runs_dir ex_submitter @ ''. Exiting.''),
           ex_submitter,
           ex_world\<lparr>lookup := (lookup ex_world)(runs_dir ex_submitter \<mapsto> Directory [])\<rparr>)"
proof -
  have h: "path_exists
             (ex_world\<lparr>lookup := (lookup ex_world)(runs_dir ex_submitter \<mapsto> Directory [])\<rparr>)
             (runs_dir ex_submitter)"
    by (simp add: path_exists_def)
  show ?thesis
    using h submit_existing_run_directory [OF h, of ex_ext ex_tickets] by simp
qed

subsection \<open>Rewriting the arguments of a ticket\<close>

lemma map_of_setitem: "map_of (setitem d k v) = (map_of d)(k \<mapsto> v)"
  by (simp add: setitem_def update_conv')

lemma getitem_Inr_iff: "getitem d k = Inr v \<longleftrightarrow> map_of d k = Some v"
  by (simp add: getitem_def split: option.splits)

lemma get_file_name_val_Inr_iff:
  "get_file_name_val v = Inr n \<longleftrightarrow> (\<exists>p. v = PStr p \<and> n = basename p)"
  by (cases v) (auto simp: get_file_name_val_def get_file_name_def)

lemma the_attr_Inr_iff: "the_attr a = Inr x \<longleftrightarrow> a = Some x"
  by (cases a) (simp_all add: the_attr_def)

lemma correct_paths_args_dict_Inr:
  assumes "correct_paths_args_dict st args_dict = Inr args'"
  obtains d lt toy out modified where
    "map_of args_dict ''statistical_model_args'' = Some (PDict d)"
    "map_of d ''limit_threshold'' = map_option PStr lt"
    "map_of args_dict ''toydata_filename'' = Some (PStr toy)"
    "map_of args_dict ''output_filename'' = Some (PStr out)"
    "modified_statistical_model_config st = Some modified"
    "args' = setitem (setitem (setitem (setitem args_dict ''statistical_model_args''
               (PDict (case lt of None \<Rightarrow> setitem d ''template_path'' (PStr ''templates/'')
                       | Some p \<Rightarrow> setitem (setitem d ''template_path'' (PStr ''templates/''))
                                     ''limit_threshold'' (PStr (basename p)))))
               ''toydata_filename'' (PStr (basename toy)))
               ''output_filename'' (PStr (basename out)))
               ''statistical_model_config'' (PStr (basename modified))"
proof -
  from assms obtain sma where sma: "map_of args_dict ''statistical_model_args'' = Some sma"
    by (auto simp: correct_paths_args_dict_def andthen_Inr_iff getitem_Inr_iff)
  from assms sma obtain d where d: "sma = PDict d"
    by (cases sma) (auto simp: correct_paths_args_dict_def andthen_Inr_iff getitem_Inr_iff)
  let ?d1 = "setitem d ''template_path'' (PStr ''templates/'')"
  have lt1: "map_of ?d1 ''limit_threshold'' = map_of d ''limit_threshold''"
    by (simp add: map_of_setitem)
  from assms sma d obtain d2 where
    d2: "(case map_of d ''limit_threshold'' of None \<Rightarrow> Inr ?d1
          | Some v \<Rightarrow> andthen (get_file_name_val v)
                       (\<lambda>n. Inr (setitem ?d1 ''limit_threshold'' (PStr n)))) = Inr d2"
    and rest: "andthen (getitem (setitem args_dict ''statistical_model_args'' (PDict d2))
                          ''toydata_filename'') (\<lambda>v.
     andthen (get_file_name_val v) (\<lambda>toydata.
     andthen (getitem (setitem (setitem args_dict ''statistical_model_args'' (PDict d2))
                         ''toydata_filename'' (PStr toydata)) ''output_filename'') (\<lambda>v.
     andthen (get_file_name_val v) (\<lambda>output.
     andthen (the_attr (modified_statistical_model_config st)) (\<lambda>modified.
     Inr (setitem (setitem (setitem (setitem args_dict ''statistical_model_args'' (PDict d2))
            ''toydata_filename'' (PStr toydata)) ''output_filename'' (PStr output))
            ''statistical_model_config'' (PStr (get_file_name modified)))))))) = Inr args'"
    by (auto simp: correct_paths_args_dict_def andthen_Inr_iff getitem_Inr_iff Let_def lt1)
  from d2 obtain lt where lt: "map_of d ''limit_threshold'' = map_option PStr lt"
    and d2': "d2 = (case lt of None \<Rightarrow> ?d1
                    | Some p \<Rightarrow> setitem ?d1 ''limit_threshold'' (PStr (basename p)))"
    by (cases "map_of d ''limit_threshold''")
       (auto simp: andthen_Inr_iff get_file_name_val_Inr_iff intro: that[of None] that[of "Some _"])
  from rest obtain toy out modified where
    "map_of args_dict ''toydata_filename'' = Some (PStr toy)"
    "map_of args_dict ''output_filename'' = Some (PStr out)"
    "modified_statistical_model_config st = Some modified"
    "args' = setitem (setitem (setitem (setitem args_dict ''statistical_model_args'' (PDict d2))
               ''toydata_filename'' (PStr (basename toy)))
               ''output_filename'' (PStr (basename out)))
               ''statistical_model_config'' (PStr (basename modified))"
    by (auto simp: andthen_Inr_iff getitem_Inr_iff get_file_name_val_Inr_iff the_attr_Inr_iff
        map_of_setitem get_file_name_def split: if_splits)
  with sma d lt d2' show ?thesis by (intro that) auto
qed

lemma ex_correct_paths:
  "correct_paths_args_dict ex_prepared
     (ex_args ''generate_and_store'' (Some ''/home/u/thresholds/lt.json'') ''1'') = Inr ex_rewritten"
  by (simp add: correct_paths_args_dict_def ex_args_def ex_prepared_def ex_submitter_def
      ex_rewritten_def getitem_def setitem_def get_file_name_val_def get_file_name_def
      basename_def the_attr_def)

text \<open>\<open>ex_prepared\<close> is the submitter as \<^verbatim>\<open>_modify_yaml\<close> leaves it: the modified
  configuration goes to the generated directory under the name of the original with
  \<^verbatim>\<open>.yaml\<close> replaced by \<^verbatim>\<open>_modified.yaml\<close>.\<close>

lemma ex_modify_yaml:
  "modify_yaml ex_world ex_submitter =
     Inr (ex_prepared,
          ex_world\<lparr>effects := [DumpYaml ''/scratch/u/workflows/generated/wf/model_modified.yaml''
                                 (PDict [(''sources'',
                                    PList [PDict [(''name'', PStr ''signal''),
                                                  (''template_filename'', PStr ''a.h5'')]])])]\<rparr>)"
  by (simp add: modify_yaml_def ex_world_def ex_submitter_def ex_prepared_def get_file_name_def
      basename_def path_join_def Let_def)

text \<open>
  C2, as the code has it. When \<^verbatim>\<open>_correct_paths_args_dict\<close> returns, \<open>template_path\<close> is
  \<^verbatim>\<open>templates/\<close>; \<open>limit_threshold\<close> (when present), \<open>toydata_filename\<close> and
  \<open>output_filename\<close> are the base names of their values in the input mapping;
  \<open>statistical_model_config\<close> is the base name of the submitter's modified configuration
  file, whatever the input mapping holds for it; every other field, of the mapping and of
  the nested \<open>statistical_model_args\<close>, is unchanged.
\<close>

theorem correct_paths_args_dict_rewrites:
  assumes "correct_paths_args_dict st args_dict = Inr args'"
  shows "(\<exists>d d'. map_of args_dict ''statistical_model_args'' = Some (PDict d)
            \<and> map_of args' ''statistical_model_args'' = Some (PDict d')
            \<and> map_of d' ''template_path'' = Some (PStr ''templates/'')
            \<and> (case map_of d ''limit_threshold'' of
                  None \<Rightarrow> map_of d' ''limit_threshold'' = None
                | Some v \<Rightarrow> \<exists>p. v = PStr p
                             \<and> map_of d' ''limit_threshold'' = Some (PStr (basename p)))
            \<and> (\<forall>k. k \<noteq> ''template_path'' \<and> k \<noteq> ''limit_threshold''
                   \<longrightarrow> map_of d' k = map_of d k))
       \<and> (\<exists>p. map_of args_dict ''toydata_filename'' = Some (PStr p)
            \<and> map_of args' ''toydata_filename'' = Some (PStr (basename p)))
       \<and> (\<exists>p. map_of args_dict ''output_filename'' = Some (PStr p)
            \<and> map_of args' ''output_filename'' = Some (PStr (basename p)))
       \<and> (\<exists>m. modified_statistical_model_config st = Some m
            \<and> map_of args' ''statistical_model_config'' = Some (PStr (basename m)))
       \<and> (\<forall>k. k \<noteq> ''statistical_model_args'' \<and> k \<noteq> ''toydata_filename''
              \<and> k \<noteq> ''output_filename'' \<and> k \<noteq> ''statistical_model_config''
              \<longrightarrow> map_of args' k = map_of args_dict k)"
proof -
  from assms obtain d lt toy out modified where *:
    "map_of args_dict ''statistical_model_args'' = Some (PDict d)"
    "map_of d ''limit_threshold'' = map_option PStr lt"
    "map_of args_dict ''toydata_filename'' = Some (PStr toy)"
    "map_of args_dict ''output_filename'' = Some (PStr out)"
    "modified_statistical_model_config st = Some modified"
    "args' = setitem (setitem (setitem (setitem args_dict ''statistical_model_args''
               (PDict (case lt of None \<Rightarrow> setitem d ''template_path'' (PStr ''templates/'')
                       | Some p \<Rightarrow> setitem (setitem d ''template_path'' (PStr ''templates/''))
                                     ''limit_threshold'' (PStr (basename p)))))
               ''toydata_filename'' (PStr (basename toy)))
               ''output_filename'' (PStr (basename out)))
               ''statistical_model_config'' (PStr (basename modified))"
    by (rule correct_paths_args_dict_Inr)
  show ?thesis
    using * by (cases lt) (simp_all add: map_of_setitem)
qed

theorem correct_paths_args_dict_rewrites_witness:
  "correct_paths_args_dict ex_prepared
     (ex_args ''generate_and_store'' (Some ''/home/u/thresholds/lt.json'') ''1'') = Inr ex_rewritten
   \<and> (\<exists>p. map_of (ex_args ''generate_and_store'' (Some ''/home/u/thresholds/lt.json'') ''1'')
              ''output_filename'' = Some (PStr p)
          \<and> map_of ex_rewritten ''output_filename'' = Some (PStr (basename p)))
   \<and> (\<exists>m. modified_statistical_model_config ex_prepared = Some m
          \<and> map_of ex_rewritten ''statistical_model_config'' = Some (PStr (basename m)))"
  using correct_paths_args_dict_rewrites [OF ex_correct_paths] ex_correct_paths
  by blast

text \<open>
  C2 as the specification words it fails on \<open>statistical_model_config\<close>: the ticket names
  \<^verbatim>\<open>/home/u/model.yaml\<close>, whose base name is \<^verbatim>\<open>model.yaml\<close>, and the rewritten mapping holds
  \<^verbatim>\<open>model_modified.yaml\<close>.
\<close>

theorem statistical_model_config_counterexample:
  "correct_paths_args_dict ex_prepared
     (ex_args ''generate_and_store'' (Some ''/home/u/thresholds/lt.json'') ''1'') = Inr ex_rewritten
   \<and> map_of (ex_args ''generate_and_store'' (Some ''/home/u/thresholds/lt.json'') ''1'')
        ''statistical_model_config'' = Some (PStr ''/home/u/model.yaml'')
   \<and> basename ''/home/u/model.yaml'' = ''model.yaml''
   \<and> map_of ex_rewritten ''statistical_model_config'' = Some (PStr ''model_modified.yaml'')
   \<and> map_of ex_rewritten ''statistical_model_config''
        \<noteq> Some (PStr (basename ''/home/u/model.yaml''))"
  using ex_correct_paths
  by (simp add: ex_args_def ex_rewritten_def basename_def)


subsection \<open>File names in the template directory\<close>

lemma keeps_refl: "keeps p w w"
  by (simp add: keeps_def)

lemma keeps_trans: "keeps p w w1 \<Longrightarrow> keeps p w1 w2 \<Longrightarrow> keeps p w w2"
  by (simp add: keeps_def)

lemma validate_x509_proxy_keeps:
  "validate_x509_proxy w st = Inl (e, st', w') \<Longrightarrow> keeps p w w'"
  "validate_x509_proxy w st = Inr (st', w') \<Longrightarrow> keeps p w w' \<and> template_path st' = template_path st"
  by (auto simp: validate_x509_proxy_def Let_def keeps_def is_tarball_def
      split: option.splits if_splits sum.splits)

lemma makedirs_keeps: "makedirs q w = Inr w' \<Longrightarrow> keeps p w w'"
  by (auto simp: makedirs_def keeps_def is_tarball_def split: option.splits fsentry.splits)

lemma modify_yaml_keeps:
  "modify_yaml w st = Inl (e, st', w') \<Longrightarrow> keeps p w w'"
  "modify_yaml w st = Inr (st', w') \<Longrightarrow> keeps p w w' \<and> template_path st' = template_path st"
  by (auto simp: modify_yaml_def Let_def keeps_def is_tarball_def andthen_def at_def
      split: sum.splits)

lemma keeps_all_files:
  assumes "keeps p w w'" "\<not> distinct (all_files w p)"
  shows "all_files w' p = all_files w p"
proof -
  from assms(2) obtain es where "lookup w p = Some (Directory es)"
    by (auto simp: all_files_def os_walk_def split: option.splits fsentry.splits)
  with assms(1) show ?thesis by (simp add: keeps_def all_files_def os_walk_def)
qed

lemma length_eq_remdups_iff: "length xs = length (remdups xs) \<longleftrightarrow> distinct xs"
  by (metis length_remdups_eq remdups_id_iff_distinct)

lemma check_filename_unique_duplicates:
  assumes "template_path st = Some p" "\<not> distinct (all_files w p)"
  shows "check_filename_unique w st
           = Inl (RuntimeError ''All files in the template path must have unique names.'')"
  using assms by (simp add: check_filename_unique_def length_eq_remdups_iff)

lemma check_filename_unique_iff:
  "template_path st = Some p \<Longrightarrow> check_filename_unique w st = Inr () \<longleftrightarrow> distinct (all_files w p)"
  by (simp add: check_filename_unique_def length_eq_remdups_iff)

lemma ex_dup_all_files: "all_files ex_dup_world ''/home/u/templates'' = [''x.h5'', ''x.h5'']"
  by (simp add: all_files_def os_walk_def ex_dup_world_def ex_world_def walk.simps path_join_def)

lemma ex_dup_submit:
  "(case submit ex_ext ex_dup_world ex_submitter ex_tickets of
      Inl (e, st', w') \<Rightarrow>
        e = RuntimeError ''All files in the template path must have unique names.'' \<and>
        effects w' = [RunShell ''grid-proxy-info -timeleft -file /home/u/proxy'',
                      MakeDirs ''/scratch/u/workflows/generated/wf'',
                      MakeDirs ''/scratch/u/workflows/runs/wf'',
                      MakeDirs ''/scratch/u/workflows/outputs/wf'',
                      DumpYaml ''/scratch/u/workflows/generated/wf/model_modified.yaml''
                        (PDict [(''sources'',
                           PList [PDict [(''name'', PStr ''signal''),
                                         (''template_filename'', PStr ''a.h5'')]])])]
    | Inr _ \<Rightarrow> False)"
  by (simp add: submit_def path_exists_def validate_x509_proxy_def makedirs_def modify_yaml_def
      validate_template_path_def check_filename_unique_def all_files_def os_walk_def walk.simps
      ex_dup_world_def ex_world_def ex_submitter_def get_file_name_def basename_def path_join_def
      Let_def)

text \<open>
  C7. When two files anywhere below the template directory have the same name (the names
  that \<^verbatim>\<open>os.walk\<close> lists over the whole tree are not distinct), the uniqueness check raises
  its \<^verbatim>\<open>RuntimeError\<close>, and \<^verbatim>\<open>submit\<close> aborts, with that error or with the error of an
  earlier step, without having created the template archive.
\<close>

theorem duplicate_template_names_abort:
  assumes tp: "template_path st = Some p" and dup: "\<not> distinct (all_files w p)"
  shows "check_filename_unique w st
           = Inl (RuntimeError ''All files in the template path must have unique names.'')
       \<and> (\<exists>e st' w'. submit ext w st tickets = Inl (e, st', w')
             \<and> filter is_tarball (effects w') = filter is_tarball (effects w))"
proof
  show "check_filename_unique w st
          = Inl (RuntimeError ''All files in the template path must have unique names.'')"
    using tp dup by (rule check_filename_unique_duplicates)
next
  have "\<exists>e st' w'. submit ext w st tickets = Inl (e, st', w') \<and> keeps p w w'"
  proof (cases "path_exists w (runs_dir st)")
    case True
    then show ?thesis by (simp add: submit_def keeps_refl)
  next
    case ne: False
    show ?thesis
    proof (cases "validate_x509_proxy w st")
      case (Inl a)
      then show ?thesis using ne validate_x509_proxy_keeps(1)[of w st _ _ _ p]
        by (cases a) (simp add: submit_def)
    next
      case (Inr b)
      then obtain st1 w1 where v: "validate_x509_proxy w st = Inr (st1, w1)" by (cases b) auto
      then have k1: "keeps p w w1" and tp1: "template_path st1 = Some p"
        using validate_x509_proxy_keeps(2)[OF v, of p] tp by auto
      show ?thesis
      proof (cases "makedirs (generated_dir st1) w1")
        case (Inl e)
        then show ?thesis using ne v k1 by (simp add: submit_def)
      next
        case (Inr w2)
        then have k2: "keeps p w w2" using k1 makedirs_keeps keeps_trans by blast
        show ?thesis
        proof (cases "makedirs (runs_dir st1) w2")
          case (Inl e)
          then show ?thesis using ne v Inr k2 by (simp add: submit_def)
        next
          case m3: (Inr w3)
          then have k3: "keeps p w w3" using k2 makedirs_keeps keeps_trans by blast
          show ?thesis
          proof (cases "makedirs (outputs_dir st1) w3")
            case (Inl e)
            then show ?thesis using ne v Inr m3 k3 by (simp add: submit_def)
          next
            case m4: (Inr w4)
            then have k4: "keeps p w w4" using k3 makedirs_keeps keeps_trans by blast
            show ?thesis
            proof (cases "modify_yaml w4 st1")
              case (Inl a)
              then obtain e st5 w5 where y5: "modify_yaml w4 st1 = Inl (e, st5, w5)"
                by (cases a) auto
              then have "keeps p w w5"
                using k4 modify_yaml_keeps(1)[OF y5, of p] keeps_trans by blast
              then show ?thesis
                using ne v Inr m3 m4 y5 by (simp add: submit_def)
            next
              case y: (Inr b)
              then obtain st5 w5 where y5: "modify_yaml w4 st1 = Inr (st5, w5)" by (cases b) auto
              then have k5: "keeps p w w5" and tp5: "template_path st5 = Some p"
                using modify_yaml_keeps(2)[OF y5, of p] k4 keeps_trans tp1 by auto
              have "all_files w5 p = all_files w p" using k5 dup by (rule keeps_all_files)
              then have c: "check_filename_unique w5 st5
                  = Inl (RuntimeError ''All files in the template path must have unique names.'')"
                using check_filename_unique_duplicates[OF tp5, of w5] dup by simp
              show ?thesis
                using ne v Inr m3 m4 y5 c k5
                by (cases "validate_template_path w5 st5") (simp_all add: submit_def)
            qed
          qed
        qed
      qed
    qed
  qed
  then show "\<exists>e st' w'. submit ext w st tickets = Inl (e, st', w')
      \<and> filter is_tarball (effects w') = filter is_tarball (effects w)"
    by (auto simp: keeps_def)
qed


theorem duplicate_template_names_abort_witness:
  "template_path ex_submitter = Some ''/home/u/templates''
   \<and> \<not> distinct (all_files ex_dup_world ''/home/u/templates'')
   \<and> check_filename_unique ex_dup_world ex_submitter
       = Inl (RuntimeError ''All files in the template path must have unique names.'')
   \<and> (\<exists>e st' w'. submit ex_ext ex_dup_world ex_submitter ex_tickets = Inl (e, st', w')
         \<and> filter is_tarball (effects w') = filter is_tarball (effects ex_dup_world))"
proof -
  have h1: "template_path ex_submitter = Some ''/home/u/templates''"
    by (simp add: ex_submitter_def)
  have h2: "\<not> distinct (all_files ex_dup_world ''/home/u/templates'')"
    by (simp add: ex_dup_all_files)
  show ?thesis
    using h1 h2 duplicate_template_names_abort [OF h1 h2, of ex_ext ex_tickets] by simp
qed

subsection \<open>What one pass through the loop body does\<close>

lemma add_limit_threshold_Inr:
  assumes "add_limit_threshold st = Inr st'"
  obtains p r where "limit_threshold st = Some (PStr p)" "rc st = Some r"
    "st' = st\<lparr>f_limit_threshold := Some (basename p),
             rc := Some (r @ [(''local'', basename p, file_url p)]),
             added_limit_threshold := True\<rparr>"
  using assms
  by (auto simp: add_limit_threshold_def andthen_Inr_iff at_Inr_iff the_attr_Inr_iff
      get_file_name_val_Inr_iff Let_def)

lemma reorganize_script_Inr:
  assumes "reorganize_script ext st script = Inr (exe, ad, st')"
  shows "\<exists>kw. runner_kwargs ext script = Inr kw \<and> correct_paths_args_dict st' kw = Inr ad"
    and "added_limit_threshold st \<Longrightarrow> st' = st"
    and "\<not> added_limit_threshold st \<Longrightarrow> ticket_limit_threshold ext script = None \<Longrightarrow> st' = st"
    and "\<not> added_limit_threshold st \<Longrightarrow> ticket_limit_threshold ext script = Some v \<Longrightarrow>
           \<exists>p r. v = PStr p \<and> rc st = Some r \<and>
             st' = st\<lparr>limit_threshold := Some v,
                      f_limit_threshold := Some (basename p),
                      rc := Some (r @ [(''local'', basename p, file_url p)]),
                      added_limit_threshold := True\<rparr>"
proof -
  from assms obtain kw where kw: "runner_kwargs ext script = Inr kw"
    and mid: "(if added_limit_threshold st then Inr st
              else andthen (at st (getitem kw ''statistical_model_args'')) (\<lambda>sma.
                   andthen (at st (case sma of PDict d \<Rightarrow> Inr d | _ \<Rightarrow> Inl AttributeError)) (\<lambda>d.
                   case map_of d ''limit_threshold'' of
                     None \<Rightarrow> Inr st
                   | Some v \<Rightarrow> add_limit_threshold (st\<lparr>limit_threshold := Some v\<rparr>)))) = Inr st'"
    and cp: "correct_paths_args_dict st' kw = Inr ad"
    by (auto simp: reorganize_script_def andthen_Inr_iff at_Inr_iff)
  show "\<exists>kw. runner_kwargs ext script = Inr kw \<and> correct_paths_args_dict st' kw = Inr ad"
    using kw cp by blast
  show "added_limit_threshold st \<Longrightarrow> st' = st" using mid by simp
  {
    assume na: "\<not> added_limit_threshold st"
    with mid obtain sma where sma: "map_of kw ''statistical_model_args'' = Some sma"
      and m1: "andthen (at st (case sma of PDict d \<Rightarrow> Inr d | _ \<Rightarrow> Inl AttributeError)) (\<lambda>d.
                   case map_of d ''limit_threshold'' of
                     None \<Rightarrow> Inr st
                   | Some v \<Rightarrow> add_limit_threshold (st\<lparr>limit_threshold := Some v\<rparr>)) = Inr st'"
      by (auto simp: andthen_Inr_iff at_Inr_iff getitem_Inr_iff)
    from m1 obtain d where d0: "sma = PDict d"
      and m2: "(case map_of d ''limit_threshold'' of
                     None \<Rightarrow> Inr st
                   | Some v \<Rightarrow> add_limit_threshold (st\<lparr>limit_threshold := Some v\<rparr>)) = Inr st'"
      by (cases sma) auto
    have d: "map_of kw ''statistical_model_args'' = Some (PDict d)" using sma d0 by simp
    have tl: "ticket_limit_threshold ext script = map_of d ''limit_threshold''"
      using kw d by (simp add: ticket_limit_threshold_def)
    show "ticket_limit_threshold ext script = None \<Longrightarrow> st' = st"
      using tl m2 by simp
    show "ticket_limit_threshold ext script = Some v \<Longrightarrow>
           \<exists>p r. v = PStr p \<and> rc st = Some r \<and>
             st' = st\<lparr>limit_threshold := Some v,
                      f_limit_threshold := Some (basename p),
                      rc := Some (r @ [(''local'', basename p, file_url p)]),
                      added_limit_threshold := True\<rparr>"
    proof -
      assume "ticket_limit_threshold ext script = Some v"
      with tl have "map_of d ''limit_threshold'' = Some v" by simp
      with m2 have "add_limit_threshold (st\<lparr>limit_threshold := Some v\<rparr>) = Inr st'" by simp
      then show ?thesis by (rule add_limit_threshold_Inr) auto
    qed
  }
qed

lemma wf_add_jobs_Inr:
  assumes "wf_add_jobs j st = Inr (r, st')"
  obtains wfl where "wf st = Some wfl" "r = length (jobs wfl)"
    "st' = st\<lparr>wf := Some (wfl\<lparr>jobs := jobs wfl @ [j]\<rparr>)\<rparr>"
  using assms by (auto simp: wf_add_jobs_def andthen_Inr_iff at_Inr_iff the_attr_Inr_iff)

lemma job_add_inputs_Inr:
  assumes "job_add_inputs ref fs st = Inr st'"
  obtains i wfl where "ref = Some i" "wf st = Some wfl"
    "st' = st\<lparr>wf := Some (wfl\<lparr>jobs := (jobs wfl)[i := add_inputs fs (jobs wfl ! i)]\<rparr>)\<rparr>"
  using assms
  by (cases ref) (auto simp: job_add_inputs_def andthen_Inr_iff at_Inr_iff the_attr_Inr_iff)

lemma add_combine_job_Inr:
  assumes "add_combine_job st i = Inr (r, st')"
  obtains wfl c where "wf st = Some wfl" "r = length (jobs wfl)"
    "st' = st\<lparr>wf := Some (wfl\<lparr>jobs := jobs wfl @ [c]\<rparr>)\<rparr>"
    "transformation c = ''combine''" "inputs c = []"
    "outputs c = [(workflow_id st @ ''-'' @ str_int i @ ''-combined_output.tar.gz'', True)]"
    "args c = [workflow_id st @ ''-'' @ str_int i]"
proof -
  from assms show ?thesis
    unfolding add_combine_job_def Let_def
    by (elim wf_add_jobs_Inr)
       (auto intro!: that simp: add_args_def add_outputs_def add_profiles_def initialize_job_def Job_def)
qed


lemma File_Inr_iff: "File v = Inr f \<longleftrightarrow> v = PStr f"
  by (cases v) (auto simp: File_def)

lemma list_update_twice:
  "xs[i := g (xs[i := f (xs ! i)] ! i)] = xs[i := g (f (xs ! i))]"
  by (cases "i < length xs") (simp_all add: list_update_beyond)

lemma add_inputs_add_inputs: "add_inputs b (add_inputs a j) = add_inputs (a @ b) j"
  by (simp add: add_inputs_def)

lemma wf_add_jobs_Inr_iff:
  "wf_add_jobs j st = Inr (r, st') \<longleftrightarrow>
     (\<exists>wfl. wf st = Some wfl \<and> r = length (jobs wfl) \<and>
            st' = st\<lparr>wf := Some (wfl\<lparr>jobs := jobs wfl @ [j]\<rparr>)\<rparr>)"
  by (auto simp: wf_add_jobs_def andthen_Inr_iff at_Inr_iff the_attr_Inr_iff)

lemma build_job_Inr:
  assumes "build_job ext name st ad mode ref = Inr st'"
  obtains idx wfl six out job where
    "ref = Some idx" "wf st = Some wfl" "workflow_inputs st = Inr six"
    "map_of ad ''output_filename'' = Some (PStr out)"
    "mode = PStr ''generate_and_store'' \<Longrightarrow>
       \<exists>toy. map_of ad ''toydata_filename'' = Some (PStr toy) \<and>
             outputs job = [(out, False), (toy, False)]"
    "mode \<noteq> PStr ''generate_and_store'' \<Longrightarrow> outputs job = [(out, False)]"
    "transformation job = name"
    "inputs job = six @ (if added_limit_threshold st then [the (f_limit_threshold st)] else [])"
    "added_limit_threshold st \<Longrightarrow> f_limit_threshold st \<noteq> None"
    "st' = st\<lparr>wf := Some (wfl\<lparr>jobs := (jobs wfl)[idx := add_inputs (out_lfns job) (jobs wfl ! idx)]
                                      @ [job]\<rparr>)\<rparr>"
proof -
  define job0 where "job0 = add_profiles CONDOR ''requirements'' (requirements st)
      (initialize_job name False (request_cpus st) (request_memory st) (request_disk st))"
  have j0: "transformation job0 = name" "inputs job0 = []" "outputs job0 = []"
    by (simp_all add: job0_def add_profiles_def initialize_job_def Job_def)
  from assms obtain six where six: "workflow_inputs st = Inr six"
    and r1: "andthen (if added_limit_threshold st
                  then andthen (at st (the_attr (f_limit_threshold st))) (\<lambda>f.
                       Inr (add_inputs [f] (add_inputs six job0)))
                  else Inr (add_inputs six job0)) (\<lambda>job.
         andthen (at st (andthen (getitem ad ''output_filename'') File)) (\<lambda>out.
         let job = add_outputs out False job in
         andthen (job_add_inputs ref [out] st) (\<lambda>st.
         andthen (if mode = PStr ''generate_and_store''
                  then andthen (at st (andthen (getitem ad ''toydata_filename'') File)) (\<lambda>toy.
                       andthen (job_add_inputs ref [toy] st) (\<lambda>st.
                       Inr (add_outputs toy False job, st)))
                  else Inr (job, st)) (\<lambda>(job, st).
         let job = add_args (map (\<lambda>(key, v). arg_string ext v) ad) job in
         andthen (wf_add_jobs job st) (\<lambda>(_, st). Inr st))))) = Inr st'"
    unfolding build_job_def Let_def job0_def
    by (auto simp: andthen_Inr_iff at_Inr_iff)
  define job1 where "job1 = add_inputs (six @ (if added_limit_threshold st
                                then [the (f_limit_threshold st)] else [])) job0"
  from r1 have fl: "added_limit_threshold st \<Longrightarrow> f_limit_threshold st \<noteq> None"
    by (auto simp: andthen_Inr_iff at_Inr_iff the_attr_Inr_iff)
  from r1 obtain out where out: "map_of ad ''output_filename'' = Some (PStr out)"
    and r2: "andthen (job_add_inputs ref [out] st) (\<lambda>st.
         andthen (if mode = PStr ''generate_and_store''
                  then andthen (at st (andthen (getitem ad ''toydata_filename'') File)) (\<lambda>toy.
                       andthen (job_add_inputs ref [toy] st) (\<lambda>st.
                       Inr (add_outputs toy False (add_outputs out False job1), st)))
                  else Inr (add_outputs out False job1, st)) (\<lambda>(job, st).
         let job = add_args (map (\<lambda>(key, v). arg_string ext v) ad) job in
         andthen (wf_add_jobs job st) (\<lambda>(_, st). Inr st))) = Inr st'"
    unfolding job1_def
    by (auto simp: andthen_Inr_iff at_Inr_iff the_attr_Inr_iff getitem_Inr_iff File_Inr_iff
        add_inputs_add_inputs Let_def split: if_splits)
  from r2 obtain st1 where a1: "job_add_inputs ref [out] st = Inr st1"
    and r3: "andthen (if mode = PStr ''generate_and_store''
                  then andthen (at st1 (andthen (getitem ad ''toydata_filename'') File)) (\<lambda>toy.
                       andthen (job_add_inputs ref [toy] st1) (\<lambda>st.
                       Inr (add_outputs toy False (add_outputs out False job1), st)))
                  else Inr (add_outputs out False job1, st1)) (\<lambda>(job, st).
         let job = add_args (map (\<lambda>(key, v). arg_string ext v) ad) job in
         andthen (wf_add_jobs job st) (\<lambda>(_, st). Inr st)) = Inr st'"
    by (auto simp: andthen_Inr_iff)
  from a1 obtain idx wfl where ref: "ref = Some idx" and wfl: "wf st = Some wfl"
    and st1: "st1 = st\<lparr>wf := Some (wfl\<lparr>jobs := (jobs wfl)[idx := add_inputs [out] (jobs wfl ! idx)]\<rparr>)\<rparr>"
    by (rule job_add_inputs_Inr)
  have j1: "transformation job1 = name" "outputs job1 = []"
    "inputs job1 = six @ (if added_limit_threshold st then [the (f_limit_threshold st)] else [])"
    using j0 by (simp_all add: job1_def add_inputs_def)
  show ?thesis
  proof (cases "mode = PStr ''generate_and_store''")
    case False
    define job where "job = add_args (map (\<lambda>(key, v). arg_string ext v) ad) (add_outputs out False job1)"
    from r3 False have "\<exists>r. wf_add_jobs job st1 = Inr (r, st')"
      by (auto simp: andthen_Inr_iff job_def Let_def)
    then have "st' = st1\<lparr>wf := Some ((the (wf st1))\<lparr>jobs := jobs (the (wf st1)) @ [job]\<rparr>)\<rparr>"
      by (auto simp: wf_add_jobs_Inr_iff)
    then have "st' = st\<lparr>wf := Some (wfl\<lparr>jobs := (jobs wfl)[idx := add_inputs (out_lfns job) (jobs wfl ! idx)]
                                      @ [job]\<rparr>)\<rparr>"
      using st1 by (simp add: job_def out_lfns_def add_args_def add_outputs_def j1)
    moreover have "outputs job = [(out, False)]" "transformation job = name"
      "inputs job = six @ (if added_limit_threshold st then [the (f_limit_threshold st)] else [])"
      using j1 by (simp_all add: job_def add_args_def add_outputs_def)
    ultimately show ?thesis
      using ref wfl six out False fl by (intro that[of idx wfl six out job]) auto
  next
    case True
    with r3 obtain toy st2 where toy: "map_of ad ''toydata_filename'' = Some (PStr toy)"
      and a2: "job_add_inputs ref [toy] st1 = Inr st2"
      and r4: "(let job = add_args (map (\<lambda>(key, v). arg_string ext v) ad)
                            (add_outputs toy False (add_outputs out False job1)) in
                andthen (wf_add_jobs job st2) (\<lambda>(_, st). Inr st)) = Inr st'"
      by (auto simp: andthen_Inr_iff at_Inr_iff getitem_Inr_iff File_Inr_iff)
    define job where "job = add_args (map (\<lambda>(key, v). arg_string ext v) ad)
                            (add_outputs toy False (add_outputs out False job1))"
    from a2 ref st1 have st2: "st2 = st\<lparr>wf := Some (wfl\<lparr>jobs := (jobs wfl)[idx := add_inputs [out, toy] (jobs wfl ! idx)]\<rparr>)\<rparr>"
      by (auto elim!: job_add_inputs_Inr simp: list_update_twice add_inputs_add_inputs)
    from r4 have "\<exists>r. wf_add_jobs job st2 = Inr (r, st')"
      by (auto simp: andthen_Inr_iff job_def Let_def)
    then have "st' = st2\<lparr>wf := Some ((the (wf st2))\<lparr>jobs := jobs (the (wf st2)) @ [job]\<rparr>)\<rparr>"
      by (auto simp: wf_add_jobs_Inr_iff)
    then have "st' = st\<lparr>wf := Some (wfl\<lparr>jobs := (jobs wfl)[idx := add_inputs (out_lfns job) (jobs wfl ! idx)]
                                      @ [job]\<rparr>)\<rparr>"
      using st2 by (simp add: job_def out_lfns_def add_args_def add_outputs_def j1)
    moreover have "outputs job = [(out, False), (toy, False)]" "transformation job = name"
      "inputs job = six @ (if added_limit_threshold st then [the (f_limit_threshold st)] else [])"
      using j1 by (simp_all add: job_def add_args_def add_outputs_def)
    ultimately show ?thesis
      using ref wfl six out True fl toy by (intro that[of idx wfl six out job]) auto
  qed
qed


lemma is_combine_add_inputs [simp]: "is_combine (add_inputs fs j) = is_combine j"
  by (simp add: is_combine_def add_inputs_def)

lemma absorb_jobs:
  assumes "js = A @ c # B" "is_combine c" "\<forall>b\<in>set B. \<not> is_combine b" "\<not> is_combine job"
  shows "js[length A := add_inputs fs (js ! length A)] @ [job] = A @ add_inputs fs c # (B @ [job])"
    and "filter is_combine (js[length A := add_inputs fs (js ! length A)] @ [job])
           = filter is_combine A @ [add_inputs fs c]"
    and "filter is_combine js = filter is_combine A @ [c]"
    and "filter (\<lambda>j. \<not> is_combine j) (js[length A := add_inputs fs (js ! length A)] @ [job])
           = filter (\<lambda>j. \<not> is_combine j) js @ [job]"
  using assms by (simp_all add: filter_empty_conv)

lemma reorganize_script_frame:
  assumes "reorganize_script ext st script = Inr (exe, ad, st')"
  shows "wf st' = wf st"
    and "combine_n_outputs st' = combine_n_outputs st"
    and "workflow_inputs st' = workflow_inputs st"
    and "workflow_id st' = workflow_id st"
    and "modified_statistical_model_config st' = modified_statistical_model_config st"
    and "added_limit_threshold st' = (added_limit_threshold st \<or> ticket_limit_threshold ext script \<noteq> None)"
    and "added_limit_threshold st \<or> ticket_limit_threshold ext script = None \<Longrightarrow>
           rc st' = rc st \<and> f_limit_threshold st' = f_limit_threshold st"
proof -
  consider "added_limit_threshold st" | "\<not> added_limit_threshold st" "ticket_limit_threshold ext script = None"
    | v where "\<not> added_limit_threshold st" "ticket_limit_threshold ext script = Some v"
    by (cases "ticket_limit_threshold ext script") auto
  then have "wf st' = wf st \<and> combine_n_outputs st' = combine_n_outputs st \<and>
    workflow_inputs st' = workflow_inputs st \<and> workflow_id st' = workflow_id st \<and>
    modified_statistical_model_config st' = modified_statistical_model_config st \<and>
    added_limit_threshold st' = (added_limit_threshold st \<or> ticket_limit_threshold ext script \<noteq> None) \<and>
    (added_limit_threshold st \<or> ticket_limit_threshold ext script = None \<longrightarrow>
           rc st' = rc st \<and> f_limit_threshold st' = f_limit_threshold st)"
  proof cases
    case 1
    then show ?thesis using reorganize_script_Inr(2)[OF assms] by simp
  next
    case 2
    then show ?thesis using reorganize_script_Inr(3)[OF assms] by simp
  next
    case 3
    then show ?thesis using reorganize_script_Inr(4)[OF assms 3]
      by (auto simp: workflow_inputs_def)
  qed
  then show "wf st' = wf st"
    and "combine_n_outputs st' = combine_n_outputs st"
    and "workflow_inputs st' = workflow_inputs st"
    and "workflow_id st' = workflow_id st"
    and "modified_statistical_model_config st' = modified_statistical_model_config st"
    and "added_limit_threshold st' = (added_limit_threshold st \<or> ticket_limit_threshold ext script \<noteq> None)"
    and "added_limit_threshold st \<or> ticket_limit_threshold ext script = None \<Longrightarrow>
           rc st' = rc st \<and> f_limit_threshold st' = f_limit_threshold st"
    by auto
qed

lemma ticket_step_decompose:
  assumes "ticket_step ext name st lv job_id script = Inr (st', lv')"
  obtains cj st1 exe ad st2 mode where
    "new_to_combine lv \<Longrightarrow> \<exists>r. add_combine_job st (combine_i lv) = Inr (r, st1) \<and> cj = Some r"
    "\<not> new_to_combine lv \<Longrightarrow> st1 = st \<and> cj = combine_job lv"
    "reorganize_script ext st1 script = Inr (exe, ad, st2)"
    "map_of ad ''toydata_mode'' = Some mode"
    "mode = PStr ''generate_and_store'' \<or> mode = PStr ''generate''"
    "build_job ext name st2 ad mode cj = Inr st'"
    "combine_n_outputs st' \<noteq> 0"
    "lv' = \<lparr>combine_i = (if (job_id + 1) mod combine_n_outputs st' = 0 then combine_i lv + 1
                          else combine_i lv),
            new_to_combine = ((job_id + 1) mod combine_n_outputs st' = 0),
            combine_job = cj\<rparr>"
proof -
  from assms obtain cj st1 where
    c: "(if new_to_combine lv
              then andthen (add_combine_job st (combine_i lv)) (\<lambda>(r, st). Inr (Some r, st))
              else Inr (combine_job lv, st)) = Inr (cj, st1)"
    and r1: "andthen (reorganize_script ext st1 script) (\<lambda>(executable, args_dict, st).
     andthen (at st (getitem args_dict ''toydata_mode'')) (\<lambda>mode.
     if mode \<notin> set [PStr ''generate_and_store'', PStr ''generate'']
     then Inl (NotImplementedError ''Only generate_and_store toydata mode is supported on OSG.'', st)
     else andthen (build_job ext name st args_dict mode cj) (\<lambda>st.
          if combine_n_outputs st = 0 then Inl (ZeroDivisionError, st)
          else if (job_id + 1) mod combine_n_outputs st = 0
          then Inr (st, \<lparr>combine_i = combine_i lv + 1, new_to_combine = True, combine_job = cj\<rparr>)
          else Inr (st, \<lparr>combine_i = combine_i lv, new_to_combine = False, combine_job = cj\<rparr>))))
       = Inr (st', lv')"
    unfolding ticket_step_def by (auto simp: andthen_Inr_iff)
  from r1 obtain exe ad st2 where ro: "reorganize_script ext st1 script = Inr (exe, ad, st2)"
    and r2: "andthen (at st2 (getitem ad ''toydata_mode'')) (\<lambda>mode.
     if mode \<notin> set [PStr ''generate_and_store'', PStr ''generate'']
     then Inl (NotImplementedError ''Only generate_and_store toydata mode is supported on OSG.'', st2)
     else andthen (build_job ext name st2 ad mode cj) (\<lambda>st.
          if combine_n_outputs st = 0 then Inl (ZeroDivisionError, st)
          else if (job_id + 1) mod combine_n_outputs st = 0
          then Inr (st, \<lparr>combine_i = combine_i lv + 1, new_to_combine = True, combine_job = cj\<rparr>)
          else Inr (st, \<lparr>combine_i = combine_i lv, new_to_combine = False, combine_job = cj\<rparr>)))
       = Inr (st', lv')"
    by (auto simp: andthen_Inr_iff)
  from r2 obtain mode where md: "map_of ad ''toydata_mode'' = Some mode"
    and ok: "mode = PStr ''generate_and_store'' \<or> mode = PStr ''generate''"
    and r3: "andthen (build_job ext name st2 ad mode cj) (\<lambda>st.
          if combine_n_outputs st = 0 then Inl (ZeroDivisionError, st)
          else if (job_id + 1) mod combine_n_outputs st = 0
          then Inr (st, \<lparr>combine_i = combine_i lv + 1, new_to_combine = True, combine_job = cj\<rparr>)
          else Inr (st, \<lparr>combine_i = combine_i lv, new_to_combine = False, combine_job = cj\<rparr>))
       = Inr (st', lv')"
    by (auto simp: andthen_Inr_iff at_Inr_iff getitem_Inr_iff split: if_splits)
  from r3 have bj: "build_job ext name st2 ad mode cj = Inr st'"
    and k: "combine_n_outputs st' \<noteq> 0"
    and lv': "lv' = \<lparr>combine_i = (if (job_id + 1) mod combine_n_outputs st' = 0 then combine_i lv + 1
                          else combine_i lv),
            new_to_combine = ((job_id + 1) mod combine_n_outputs st' = 0),
            combine_job = cj\<rparr>"
    by (auto simp: andthen_Inr_iff split: if_splits)
  from c have c1: "new_to_combine lv \<Longrightarrow> \<exists>r. add_combine_job st (combine_i lv) = Inr (r, st1) \<and> cj = Some r"
    and c2: "\<not> new_to_combine lv \<Longrightarrow> st1 = st \<and> cj = combine_job lv"
    by (auto simp: andthen_Inr_iff split: if_splits)
  show ?thesis using c1 c2 ro md ok bj k lv' by (rule that)
qed


lemma ticket_step_Inr:
  assumes step: "ticket_step ext name st lv job_id script = Inr (st', lv')"
      and ne: "name \<noteq> ''combine''"
      and ptr: "new_to_combine lv \<or> points_last st (combine_job lv)"
  defines "job \<equiv> last (compute_jobs st')"
  shows "compute_jobs st' = compute_jobs st @ [job]"
    and "transformation job = name"
    and "map inputs (combine_jobs st') =
           (if new_to_combine lv then map inputs (combine_jobs st) @ [out_lfns job]
            else butlast (map inputs (combine_jobs st))
                 @ [last (map inputs (combine_jobs st)) @ out_lfns job])"
    and "map args (combine_jobs st') =
           (if new_to_combine lv
            then map args (combine_jobs st) @ [[workflow_id st @ ''-'' @ str_int (combine_i lv)]]
            else map args (combine_jobs st))"
    and "\<not> new_to_combine lv \<Longrightarrow> combine_jobs st \<noteq> []"
    and "points_last st' (combine_job lv')"
    and "combine_n_outputs st' = combine_n_outputs st"
    and "combine_n_outputs st \<noteq> 0"
    and "new_to_combine lv' = ((job_id + 1) mod combine_n_outputs st = 0)"
    and "combine_i lv' = (if (job_id + 1) mod combine_n_outputs st = 0
                          then combine_i lv + 1 else combine_i lv)"
    and "workflow_inputs st' = workflow_inputs st"
    and "workflow_id st' = workflow_id st"
    and "\<exists>six. workflow_inputs st = Inr six \<and>
           inputs job = six @ (if added_limit_threshold st'
                               then [the (f_limit_threshold st')] else [])"
    and "added_limit_threshold st' =
           (added_limit_threshold st \<or> ticket_limit_threshold ext script \<noteq> None)"
    and "added_limit_threshold st \<or> ticket_limit_threshold ext script = None \<Longrightarrow>
           rc st' = rc st \<and> f_limit_threshold st' = f_limit_threshold st"
    and "\<not> added_limit_threshold st \<Longrightarrow> ticket_limit_threshold ext script = Some v \<Longrightarrow>
           \<exists>p r. v = PStr p \<and> rc st = Some r \<and>
                 rc st' = Some (r @ [(''local'', basename p, file_url p)]) \<and>
                 f_limit_threshold st' = Some (basename p)"
    and "\<exists>out toy mode.
           ticket_field ext script ''output_filename'' = Some (PStr out) \<and>
           ticket_field ext script ''toydata_filename'' = Some (PStr toy) \<and>
           ticket_field ext script ''toydata_mode'' = Some mode \<and>
           (mode = PStr ''generate_and_store'' \<or> mode = PStr ''generate'') \<and>
           outputs job = (basename out, False) #
                         (if mode = PStr ''generate_and_store'' then [(basename toy, False)] else [])"
proof -
  from step obtain cj st1 exe ad st2 mode where
    c1: "new_to_combine lv \<Longrightarrow> \<exists>r. add_combine_job st (combine_i lv) = Inr (r, st1) \<and> cj = Some r"
    and c2: "\<not> new_to_combine lv \<Longrightarrow> st1 = st \<and> cj = combine_job lv"
    and ro: "reorganize_script ext st1 script = Inr (exe, ad, st2)"
    and md: "map_of ad ''toydata_mode'' = Some mode"
    and ok: "mode = PStr ''generate_and_store'' \<or> mode = PStr ''generate''"
    and bj: "build_job ext name st2 ad mode cj = Inr st'"
    and k: "combine_n_outputs st' \<noteq> 0"
    and lv': "lv' = \<lparr>combine_i = (if (job_id + 1) mod combine_n_outputs st' = 0 then combine_i lv + 1
                          else combine_i lv),
            new_to_combine = ((job_id + 1) mod combine_n_outputs st' = 0),
            combine_job = cj\<rparr>"
    by (rule ticket_step_decompose) blast
  \<comment> \<open>the combine phase\<close>
  have s1: "\<exists>X. st1 = st\<lparr>wf := X\<rparr>"
  proof (cases "new_to_combine lv")
    case True
    with c1 obtain r where "add_combine_job st (combine_i lv) = Inr (r, st1)" by blast
    then show ?thesis
    proof (rule add_combine_job_Inr)
      fix wfl c
      assume "st1 = st\<lparr>wf := Some (wfl\<lparr>jobs := jobs wfl @ [c]\<rparr>)\<rparr>"
      then show ?thesis by blast
    qed
  next
    case False
    with c2 have "st1 = st\<lparr>wf := wf st\<rparr>" by simp
    then show ?thesis by blast
  qed
  have p1: "\<exists>A c B. the_jobs st1 = A @ c # B \<and> cj = Some (length A) \<and> is_combine c \<and>
              (\<forall>b \<in> set B. \<not> is_combine b) \<and>
              (new_to_combine lv \<longrightarrow> A = the_jobs st \<and> B = [] \<and> inputs c = [] \<and>
                 args c = [workflow_id st @ ''-'' @ str_int (combine_i lv)])"
  proof (cases "new_to_combine lv")
    case True
    with c1 obtain r where a: "add_combine_job st (combine_i lv) = Inr (r, st1)" and cj: "cj = Some r"
      by blast
    from a show ?thesis
    proof (rule add_combine_job_Inr)
      fix wfl c
      assume "wf st = Some wfl" "r = length (jobs wfl)"
        "st1 = st\<lparr>wf := Some (wfl\<lparr>jobs := jobs wfl @ [c]\<rparr>)\<rparr>"
        "transformation c = ''combine''" "inputs c = []"
        "args c = [workflow_id st @ ''-'' @ str_int (combine_i lv)]"
      then show ?thesis using cj True
        by (intro exI[of _ "the_jobs st"] exI[of _ c] exI[of _ "[]"])
           (simp add: the_jobs_def is_combine_def)
    qed
  next
    case False
    with c2 ptr show ?thesis by (auto simp: points_last_def)
  qed
  then obtain A c B where js1: "the_jobs st1 = A @ c # B" and cj: "cj = Some (length A)"
    and ic: "is_combine c" and nB: "\<forall>b \<in> set B. \<not> is_combine b"
    and nw: "new_to_combine lv \<Longrightarrow> A = the_jobs st \<and> B = [] \<and> inputs c = [] \<and>
                 args c = [workflow_id st @ ''-'' @ str_int (combine_i lv)]"
    by blast
  \<comment> \<open>the ticket\<close>
  note fr = reorganize_script_frame[OF ro]
  have js2: "the_jobs st2 = A @ c # B" using fr(1) js1 by (simp add: the_jobs_def)
  \<comment> \<open>the compute job\<close>
  from bj obtain idx wfl six out j where
    b: "cj = Some idx" "wf st2 = Some wfl" "workflow_inputs st2 = Inr six"
    "map_of ad ''output_filename'' = Some (PStr out)"
    "mode = PStr ''generate_and_store'' \<Longrightarrow>
       \<exists>toy. map_of ad ''toydata_filename'' = Some (PStr toy) \<and>
             outputs j = [(out, False), (toy, False)]"
    "mode \<noteq> PStr ''generate_and_store'' \<Longrightarrow> outputs j = [(out, False)]"
    "transformation j = name"
    "inputs j = six @ (if added_limit_threshold st2 then [the (f_limit_threshold st2)] else [])"
    "added_limit_threshold st2 \<Longrightarrow> f_limit_threshold st2 \<noteq> None"
    "st' = st2\<lparr>wf := Some (wfl\<lparr>jobs := (jobs wfl)[idx := add_inputs (out_lfns j) (jobs wfl ! idx)]
                                      @ [j]\<rparr>)\<rparr>"
    by (rule build_job_Inr) blast
  have nj: "\<not> is_combine j" using b(7) ne by (simp add: is_combine_def)
  have idx: "idx = length A" using b(1) cj by simp
  have jw: "jobs wfl = A @ c # B" using js2 b(2) by (simp add: the_jobs_def)
  have js': "the_jobs st' = (jobs wfl)[length A := add_inputs (out_lfns j) (jobs wfl ! length A)] @ [j]"
    using b(10) idx by (simp add: the_jobs_def)
  note ab = absorb_jobs[OF jw ic nB nj]
  have cst1: "compute_jobs st1 = compute_jobs st"
  proof (cases "new_to_combine lv")
    case True
    then show ?thesis using nw js1 ic by (simp add: compute_jobs_def)
  next
    case False
    then show ?thesis using c2 by simp
  qed
  have cmp: "compute_jobs st' = compute_jobs st @ [j]"
    using ab(4) js' jw js1 cst1 by (simp add: compute_jobs_def)
  then have job: "job = j" by (simp add: job_def)
  show "compute_jobs st' = compute_jobs st @ [job]" using cmp job by simp
  show "transformation job = name" using b(7) job by simp
  have comb': "combine_jobs st' = filter is_combine A @ [add_inputs (out_lfns j) c]"
    using ab(2) js' by (simp add: combine_jobs_def)
  have comb1: "combine_jobs st1 = filter is_combine A @ [c]"
    using ab(3) jw js1 by (simp add: combine_jobs_def)
  show "map inputs (combine_jobs st') =
           (if new_to_combine lv then map inputs (combine_jobs st) @ [out_lfns job]
            else butlast (map inputs (combine_jobs st))
                 @ [last (map inputs (combine_jobs st)) @ out_lfns job])"
  proof (cases "new_to_combine lv")
    case True
    then show ?thesis using comb' nw job by (simp add: combine_jobs_def add_inputs_def)
  next
    case False
    then show ?thesis using comb' comb1 c2 job by (simp add: add_inputs_def)
  qed
  show "map args (combine_jobs st') =
           (if new_to_combine lv
            then map args (combine_jobs st) @ [[workflow_id st @ ''-'' @ str_int (combine_i lv)]]
            else map args (combine_jobs st))"
  proof (cases "new_to_combine lv")
    case True
    then show ?thesis using comb' nw by (simp add: combine_jobs_def add_inputs_def)
  next
    case False
    then show ?thesis using comb' comb1 c2 by (simp add: add_inputs_def)
  qed
  show "\<not> new_to_combine lv \<Longrightarrow> combine_jobs st \<noteq> []" using comb1 c2 by auto
  have "points_last st' cj"
    unfolding points_last_def
    using ab(1) js' cj ic nB nj
    by (intro exI[of _ A] exI[of _ "add_inputs (out_lfns j) c"] exI[of _ "B @ [j]"]) auto
  then show "points_last st' (combine_job lv')" using lv' by simp
  from s1 obtain X where st1: "st1 = st\<lparr>wf := X\<rparr>" by blast
  have k': "combine_n_outputs st' = combine_n_outputs st"
    using b(10) fr(2) st1 by simp
  then show "combine_n_outputs st' = combine_n_outputs st" .
  show "combine_n_outputs st \<noteq> 0" using k k' by simp
  show "new_to_combine lv' = ((job_id + 1) mod combine_n_outputs st = 0)"
    using lv' k' by simp
  show "combine_i lv' = (if (job_id + 1) mod combine_n_outputs st = 0
                          then combine_i lv + 1 else combine_i lv)"
    using lv' k' by simp
  have wi1: "workflow_inputs st1 = workflow_inputs st" using st1 by (simp add: workflow_inputs_def)
  have wi': "workflow_inputs st' = workflow_inputs st2" using b(10) by (simp add: workflow_inputs_def)
  show "workflow_inputs st' = workflow_inputs st" using wi' fr(3) wi1 by simp
  show "workflow_id st' = workflow_id st" using b(10) fr(4) st1 by simp
  have fl': "added_limit_threshold st' = added_limit_threshold st2"
    "f_limit_threshold st' = f_limit_threshold st2" "rc st' = rc st2"
    using b(10) by simp_all
  have fl1: "added_limit_threshold st1 = added_limit_threshold st"
    "f_limit_threshold st1 = f_limit_threshold st" "rc st1 = rc st"
    using st1 by simp_all
  show "\<exists>six. workflow_inputs st = Inr six \<and>
           inputs job = six @ (if added_limit_threshold st'
                               then [the (f_limit_threshold st')] else [])"
    using b(3,8) fr(3) wi1 fl' job by simp
  show "added_limit_threshold st' =
           (added_limit_threshold st \<or> ticket_limit_threshold ext script \<noteq> None)"
    using fr(6) fl' fl1 by simp
  show "added_limit_threshold st \<or> ticket_limit_threshold ext script = None \<Longrightarrow>
           rc st' = rc st \<and> f_limit_threshold st' = f_limit_threshold st"
    using fr(7) fl' fl1 by simp
  show "\<not> added_limit_threshold st \<Longrightarrow> ticket_limit_threshold ext script = Some v \<Longrightarrow>
           \<exists>p r. v = PStr p \<and> rc st = Some r \<and>
                 rc st' = Some (r @ [(''local'', basename p, file_url p)]) \<and>
                 f_limit_threshold st' = Some (basename p)"
  proof -
    assume a: "\<not> added_limit_threshold st" "ticket_limit_threshold ext script = Some v"
    then have "\<not> added_limit_threshold st1" using fl1 by simp
    from reorganize_script_Inr(4)[OF ro this a(2)] show ?thesis
      using fl' fl1 by auto
  qed
  from reorganize_script_Inr(1)[OF ro] obtain kw where
    kw: "runner_kwargs ext script = Inr kw" and cp: "correct_paths_args_dict st2 kw = Inr ad"
    by blast
  from cp obtain d lt toy0 out0 modified where cpf:
    "map_of kw ''toydata_filename'' = Some (PStr toy0)"
    "map_of kw ''output_filename'' = Some (PStr out0)"
    "ad = setitem (setitem (setitem (setitem kw ''statistical_model_args''
               (PDict (case lt of None \<Rightarrow> setitem d ''template_path'' (PStr ''templates/'')
                       | Some p \<Rightarrow> setitem (setitem d ''template_path'' (PStr ''templates/''))
                                     ''limit_threshold'' (PStr (basename p)))))
               ''toydata_filename'' (PStr (basename toy0)))
               ''output_filename'' (PStr (basename out0)))
               ''statistical_model_config'' (PStr (basename modified))"
    by (rule correct_paths_args_dict_Inr)
  have m1: "map_of ad ''toydata_mode'' = map_of kw ''toydata_mode''"
    and m2: "map_of ad ''output_filename'' = Some (PStr (basename out0))"
    and m3: "map_of ad ''toydata_filename'' = Some (PStr (basename toy0))"
    using cpf(3) by (simp_all add: map_of_setitem)
  have "outputs j = (basename out0, False) #
                         (if mode = PStr ''generate_and_store'' then [(basename toy0, False)] else [])"
    using b(4,5,6) m2 m3 by (cases "mode = PStr ''generate_and_store''") auto
  then show "\<exists>out toy mode.
           ticket_field ext script ''output_filename'' = Some (PStr out) \<and>
           ticket_field ext script ''toydata_filename'' = Some (PStr toy) \<and>
           ticket_field ext script ''toydata_mode'' = Some mode \<and>
           (mode = PStr ''generate_and_store'' \<or> mode = PStr ''generate'') \<and>
           outputs job = (basename out, False) #
                         (if mode = PStr ''generate_and_store'' then [(basename toy, False)] else [])"
    using kw cpf(1,2) m1 md ok job
    by (intro exI[of _ out0] exI[of _ toy0] exI[of _ mode]) (simp add: ticket_field_def)
qed


subsection \<open>The loop over the tickets\<close>

lemma tickets_loop_append:
  "tickets_loop ext name st lv j (xs @ ys) =
     andthen (tickets_loop ext name st lv j xs)
       (\<lambda>(st', lv'). tickets_loop ext name st' lv' (j + int (length xs)) ys)"
proof (induction xs arbitrary: st lv j)
  case Nil
  then show ?case by simp
next
  case (Cons x xs)
  show ?case
  proof (cases "ticket_step ext name st lv j x")
    case (Inl e)
    then show ?thesis by simp
  next
    case (Inr r)
    obtain st1 lv1 where r: "r = (st1, lv1)" by (cases r)
    show ?thesis using Inr r Cons.IH[of st1 lv1 "j + 1"] by (simp add: add.assoc)
  qed
qed

lemma tickets_loop_snoc_Inr:
  assumes "tickets_loop ext name st0 lv0 j (xs @ [x]) = Inr (st', lv')"
  obtains st lv where "tickets_loop ext name st0 lv0 j xs = Inr (st, lv)"
    "ticket_step ext name st lv (j + int (length xs)) x = Inr (st', lv')"
proof -
  from assms obtain r where r: "tickets_loop ext name st0 lv0 j xs = Inr r"
    and s: "(case r of (st, lv) \<Rightarrow> tickets_loop ext name st lv (j + int (length xs)) [x]) = Inr (st', lv')"
    by (auto simp: tickets_loop_append andthen_Inr_iff)
  obtain st lv where rr: "r = (st, lv)" by (cases r)
  from s rr have "ticket_step ext name st lv (j + int (length xs)) x = Inr (st', lv')"
    by (cases "ticket_step ext name st lv (j + int (length xs)) x") auto
  with r rr show ?thesis by (auto intro: that)
qed

lemma loop_frame:
  assumes "tickets_loop ext name st0 lv0 0 ts = Inr (st, lv)"
      and "name \<noteq> ''combine''" and "new_to_combine lv0" and "the_jobs st0 = []"
  shows "length (compute_jobs st) = length ts
       \<and> (ts = [] \<or> points_last st (combine_job lv))
       \<and> new_to_combine lv = (int (length ts) mod combine_n_outputs st0 = 0)
       \<and> (ts \<noteq> [] \<longrightarrow> combine_n_outputs st0 \<noteq> 0)
       \<and> combine_n_outputs st = combine_n_outputs st0
       \<and> workflow_inputs st = workflow_inputs st0
       \<and> workflow_id st = workflow_id st0"
  using assms(1)
proof (induction ts arbitrary: st lv rule: rev_induct)
  case Nil
  then show ?case using assms(3,4) by (simp add: compute_jobs_def)
next
  case (snoc x xs)
  from snoc.prems obtain st1 lv1 where
    l: "tickets_loop ext name st0 lv0 0 xs = Inr (st1, lv1)"
    and s: "ticket_step ext name st1 lv1 (0 + int (length xs)) x = Inr (st, lv)"
    by (rule tickets_loop_snoc_Inr)
  note ih = snoc.IH[OF l]
  have ptr: "new_to_combine lv1 \<or> points_last st1 (combine_job lv1)"
    using ih by (cases "xs = []") auto
  note f = ticket_step_Inr[OF s assms(2) ptr]
  have len: "length (compute_jobs st) = Suc (length (compute_jobs st1))"
    using arg_cong[OF f(1), of length] by simp
  show ?case
    using ih len f(6,7,8,9,11,12) by (simp add: add.commute)
qed


subsection \<open>Consecutive groups of a list\<close>

lemma div_plus_multiple: "r < k \<Longrightarrow> (r + q * k) div k = (q::nat)"
  by simp

lemma ceil_div_exact: "0 < k \<Longrightarrow> (q * k + k - 1) div k = (q::nat)"
proof -
  assume k: "0 < k"
  then have e: "q * k + k - 1 = (k - 1) + q * k" by arith
  show ?thesis unfolding e using k by (intro div_plus_multiple) arith
qed

lemma ceil_div_rem: "0 < r \<Longrightarrow> r < k \<Longrightarrow> (q * k + r + k - 1) div k = Suc (q::nat)"
proof -
  assume r: "0 < r" "r < k"
  then have e: "q * k + r + k - 1 = (r - 1) + Suc q * k" by simp
  show ?thesis unfolding e using r by (intro div_plus_multiple) arith
qed

lemma ceil_div_next: "r < k \<Longrightarrow> (q * k + r + 1 + k - 1) div k = Suc (q::nat)"
proof -
  assume r: "r < k"
  have e: "q * k + r + 1 + k - 1 = r + Suc q * k" by simp
  show ?thesis unfolding e using r by (intro div_plus_multiple)
qed

lemma cohort_step:
  fixes J :: "'a list" and f :: "'a \<Rightarrow> 'b list" and Cin :: "'b list list" and x :: 'a
  assumes k: "0 < k"
    and len: "length Cin = (length J + k - 1) div k"
    and inv: "\<forall>i<length Cin. Cin ! i = concat (map f (take k (drop (i * k) J)))"
  defines "Cin' \<equiv> (if length J mod k = 0 then Cin @ [f x]
                    else butlast Cin @ [last Cin @ f x])"
  shows "length Cin' = (length (J @ [x]) + k - 1) div k"
    and "\<forall>i<length Cin'. Cin' ! i = concat (map f (take k (drop (i * k) (J @ [x]))))"
proof -
  define n where "n = length J"
  define q where "q = n div k"
  define r where "r = n mod k"
  have n: "n = q * k + r" and r: "r < k"
    using k by (simp_all add: q_def r_def)
  have full: "take k (drop (i * k) (J @ [x])) = take k (drop (i * k) J)" if "i < q" for i
  proof -
    have "(i + 1) * k \<le> q * k" using that by (intro mult_le_mono1) simp
    then have "i * k + k \<le> n" using n by simp
    then show ?thesis by (simp add: n_def)
  qed
  have "length Cin' = (length (J @ [x]) + k - 1) div k
      \<and> (\<forall>i<length Cin'. Cin' ! i = concat (map f (take k (drop (i * k) (J @ [x])))))"
  proof (cases "r = 0")
    case True
    then have nq: "n = q * k" using n by simp
    have "length J + k - 1 = q * k + k - 1" using nq by (simp add: n_def)
    then have lC: "length Cin = q" using len ceil_div_exact[OF k, of q] by simp
    have C': "Cin' = Cin @ [f x]" using True by (simp add: Cin'_def r_def n_def)
    have "length (J @ [x]) + k - 1 = q * k + 0 + 1 + k - 1" using nq by (simp add: n_def)
    then have "(length (J @ [x]) + k - 1) div k = Suc q"
      using ceil_div_next[OF k, of q] by simp
    then have a: "length Cin' = (length (J @ [x]) + k - 1) div k"
      using C' lC by simp
    have b: "\<forall>i<length Cin'. Cin' ! i = concat (map f (take k (drop (i * k) (J @ [x]))))"
    proof (intro allI impI)
      fix i assume "i < length Cin'"
      then have "i < q \<or> i = q" using C' lC by auto
      then show "Cin' ! i = concat (map f (take k (drop (i * k) (J @ [x]))))"
      proof
        assume iq: "i < q"
        then have "Cin' ! i = Cin ! i" using C' lC by (simp add: nth_append)
        also have "\<dots> = concat (map f (take k (drop (i * k) J)))" using inv lC iq by simp
        finally show ?thesis unfolding full[OF iq] .
      next
        assume iq: "i = q"
        have "drop (q * k) (J @ [x]) = [x]" using nq by (simp add: n_def)
        then show ?thesis using iq C' lC k by (simp add: nth_append)
      qed
    qed
    show ?thesis using a b by simp
  next
    case False
    have "length J + k - 1 = q * k + r + k - 1" using n by (simp add: n_def)
    then have lC: "length Cin = q + 1" using len ceil_div_rem[OF _ r, of q] False by simp
    then have ne: "Cin \<noteq> []" by auto
    have C': "Cin' = butlast Cin @ [last Cin @ f x]" using False by (simp add: Cin'_def r_def n_def)
    have lC': "length Cin' = q + 1" using C' lC by simp
    have "length (J @ [x]) + k - 1 = q * k + r + 1 + k - 1" using n by (simp add: n_def)
    then have "(length (J @ [x]) + k - 1) div k = Suc q"
      using ceil_div_next[OF r, of q] by simp
    then have a: "length Cin' = (length (J @ [x]) + k - 1) div k"
      using lC' by simp
    have b: "\<forall>i<length Cin'. Cin' ! i = concat (map f (take k (drop (i * k) (J @ [x]))))"
    proof (intro allI impI)
      fix i assume "i < length Cin'"
      then have "i < q \<or> i = q" using lC' by auto
      then show "Cin' ! i = concat (map f (take k (drop (i * k) (J @ [x]))))"
      proof
        assume iq: "i < q"
        then have "Cin' ! i = Cin ! i" using C' lC by (simp add: nth_append nth_butlast)
        also have "\<dots> = concat (map f (take k (drop (i * k) J)))" using inv lC iq by simp
        finally show ?thesis unfolding full[OF iq] .
      next
        assume iq: "i = q"
        have "Cin' ! q = last Cin @ f x" using C' lC by (simp add: nth_append)
        also have "last Cin = Cin ! q" using lC ne by (simp add: last_conv_nth)
        also have "Cin ! q = concat (map f (take k (drop (q * k) J)))" using inv lC by simp
        finally have a: "Cin' ! q = concat (map f (take k (drop (q * k) J))) @ f x" .
        have l: "length (drop (q * k) J) = r" using n by (simp add: n_def[symmetric])
        then have "take k (drop (q * k) J) = drop (q * k) J" using r by simp
        moreover have "take k (drop (q * k) (J @ [x])) = drop (q * k) J @ [x]"
          using l r n by (simp add: n_def[symmetric])
        ultimately show ?thesis using a iq by simp
      qed
    qed
    show ?thesis using a b by simp
  qed
  then show "length Cin' = (length (J @ [x]) + k - 1) div k"
    and "\<forall>i<length Cin'. Cin' ! i = concat (map f (take k (drop (i * k) (J @ [x]))))"
    by simp_all
qed


lemma ceil_div_dvd: "0 < k \<Longrightarrow> n mod k = 0 \<Longrightarrow> (n + k - 1) div k = (n::nat) div k"
proof -
  assume k: "0 < k" and m: "n mod k = 0"
  then have n: "n = (n div k) * k" by (metis div_mult_mod_eq add.right_neutral)
  have "(n div k * k + k - 1) div k = n div k" using k by (rule ceil_div_exact)
  then show ?thesis using n by simp
qed

lemma loop_cohorts:
  assumes "tickets_loop ext name st0 lv0 0 ts = Inr (st, lv)"
      and "name \<noteq> ''combine''" and "new_to_combine lv0" and "the_jobs st0 = []"
      and "combine_i lv0 = 0" and "0 < combine_n_outputs st0"
  defines "k \<equiv> nat (combine_n_outputs st0)"
  shows "length (combine_jobs st) = (length ts + k - 1) div k
       \<and> (\<forall>i<length (combine_jobs st).
             map inputs (combine_jobs st) ! i
               = concat (map out_lfns (take k (drop (i * k) (compute_jobs st)))))
       \<and> map args (combine_jobs st)
           = map (\<lambda>i. [workflow_id st0 @ ''-'' @ str_int (int i)]) [0..<length (combine_jobs st)]
       \<and> combine_i lv = int (length ts div k)"
  using assms(1)
proof (induction ts arbitrary: st lv rule: rev_induct)
  case Nil
  then show ?case using assms(4,5,6) by (simp add: combine_jobs_def compute_jobs_def k_def)
next
  case (snoc x xs)
  have k: "0 < k" and K: "combine_n_outputs st0 = int k" using assms(6) by (simp_all add: k_def)
  from snoc.prems obtain st1 lv1 where
    l: "tickets_loop ext name st0 lv0 0 xs = Inr (st1, lv1)"
    and s: "ticket_step ext name st1 lv1 (0 + int (length xs)) x = Inr (st, lv)"
    by (rule tickets_loop_snoc_Inr)
  note ih = snoc.IH[OF l]
  note fr = loop_frame[OF l assms(2,3,4)]
  have ptr: "new_to_combine lv1 \<or> points_last st1 (combine_job lv1)"
    using fr by (cases "xs = []") auto
  note f = ticket_step_Inr[OF s assms(2) ptr]
  define J where "J = compute_jobs st1"
  define Cin where "Cin = map inputs (combine_jobs st1)"
  define job where "job = last (compute_jobs st)"
  have lJ: "length J = length xs" using fr by (simp add: J_def)
  have new1: "new_to_combine lv1 = (length xs mod k = 0)"
  proof -
    have "int (length xs) mod int k = int (length xs mod k)" by (simp add: zmod_int)
    then show ?thesis using fr K by simp
  qed
  have Jst: "compute_jobs st = J @ [job]" using f(1) by (simp add: J_def job_def)
  have Cst: "map inputs (combine_jobs st) =
               (if length J mod k = 0 then Cin @ [out_lfns job]
                else butlast Cin @ [last Cin @ out_lfns job])"
    using f(3) new1 lJ by (simp add: Cin_def job_def)
  have len1: "length Cin = (length J + k - 1) div k" using ih lJ by (simp add: Cin_def)
  have inv1: "\<forall>i<length Cin. Cin ! i = concat (map out_lfns (take k (drop (i * k) J)))"
    using ih by (simp add: Cin_def J_def)
  note cs = cohort_step[OF k len1 inv1, of job, folded Cst]
  have a: "length (combine_jobs st) = (length (xs @ [x]) + k - 1) div k"
    using cs(1) lJ by simp
  have b: "\<forall>i<length (combine_jobs st).
             map inputs (combine_jobs st) ! i
               = concat (map out_lfns (take k (drop (i * k) (compute_jobs st))))"
    using cs(2) Jst by simp
  have c: "map args (combine_jobs st)
           = map (\<lambda>i. [workflow_id st0 @ ''-'' @ str_int (int i)]) [0..<length (combine_jobs st)]"
  proof -
    have ihA: "map args (combine_jobs st1)
           = map (\<lambda>i. [workflow_id st0 @ ''-'' @ str_int (int i)]) [0..<length (combine_jobs st1)]"
      and ihI: "combine_i lv1 = int (length xs div k)"
      and ihL: "length (combine_jobs st1) = (length xs + k - 1) div k"
      using ih by simp_all
    have wid: "workflow_id st1 = workflow_id st0" using fr by simp
    show ?thesis
    proof (cases "new_to_combine lv1")
      case True
      then have "length xs mod k = 0" using new1 by simp
      then have "(length xs + k - 1) div k = length xs div k" by (rule ceil_div_dvd[OF k])
      then have ci: "combine_i lv1 = int (length (combine_jobs st1))" using ihI ihL by simp
      have m: "map args (combine_jobs st) = map args (combine_jobs st1)
                 @ [[workflow_id st0 @ ''-'' @ str_int (int (length (combine_jobs st1)))]]"
        using f(4) True ci wid by simp
      have "length (combine_jobs st) = Suc (length (combine_jobs st1))"
        using arg_cong[OF m, of length] by simp
      then show ?thesis using m ihA by simp
    next
      case False
      then have m: "map args (combine_jobs st) = map args (combine_jobs st1)" using f(4) by simp
      have "length (combine_jobs st) = length (combine_jobs st1)"
        using arg_cong[OF m, of length] by simp
      then show ?thesis using m ihA by simp
    qed
  qed
  have d: "combine_i lv = int (length (xs @ [x]) div k)"
  proof -
    have "(int (length xs) + 1) mod int k = int (Suc (length xs) mod k)"
      using zmod_int[of "Suc (length xs)" k] by (simp add: add.commute)
    then have e: "((0 + int (length xs) + 1) mod combine_n_outputs st1 = 0)
                    = (Suc (length xs) mod k = 0)"
      using fr K by simp
    show ?thesis using f(10) ih unfolding e by (simp add: div_Suc)
  qed
  show ?case using a b c d by simp
qed


lemma first_threshold_Nil [simp]: "first_threshold ext [] = None"
  by (simp add: first_threshold_def)

lemma first_threshold_snoc:
  "first_threshold ext (xs @ [x]) =
     (case first_threshold ext xs of Some v \<Rightarrow> Some v | None \<Rightarrow> ticket_limit_threshold ext x)"
  by (simp add: first_threshold_def map_filter_def split: list.splits option.splits)

lemma loop_outputs:
  assumes "tickets_loop ext name st0 lv0 0 ts = Inr (st, lv)"
      and "name \<noteq> ''combine''" and "new_to_combine lv0" and "the_jobs st0 = []"
  shows "\<forall>p<length ts.
           transformation (compute_jobs st ! p) = name \<and>
           (\<exists>out toy mode.
              ticket_field ext (ts ! p) ''output_filename'' = Some (PStr out) \<and>
              ticket_field ext (ts ! p) ''toydata_filename'' = Some (PStr toy) \<and>
              ticket_field ext (ts ! p) ''toydata_mode'' = Some mode \<and>
              (mode = PStr ''generate_and_store'' \<or> mode = PStr ''generate'') \<and>
              outputs (compute_jobs st ! p) =
                (basename out, False) #
                (if mode = PStr ''generate_and_store'' then [(basename toy, False)] else []))"
  using assms(1)
proof (induction ts arbitrary: st lv rule: rev_induct)
  case Nil
  then show ?case by simp
next
  case (snoc x xs)
  from snoc.prems obtain st1 lv1 where
    l: "tickets_loop ext name st0 lv0 0 xs = Inr (st1, lv1)"
    and s: "ticket_step ext name st1 lv1 (0 + int (length xs)) x = Inr (st, lv)"
    by (rule tickets_loop_snoc_Inr)
  note ih = snoc.IH[OF l]
  note fr = loop_frame[OF l assms(2,3,4)]
  have ptr: "new_to_combine lv1 \<or> points_last st1 (combine_job lv1)"
    using fr by (cases "xs = []") auto
  note f = ticket_step_Inr[OF s assms(2) ptr]
  have lJ: "length (compute_jobs st1) = length xs" using fr by simp
  show ?case
  proof (intro allI impI)
    fix p assume "p < length (xs @ [x])"
    then consider "p < length xs" | "p = length xs" by fastforce
    then show "transformation (compute_jobs st ! p) = name \<and>
           (\<exists>out toy mode.
              ticket_field ext ((xs @ [x]) ! p) ''output_filename'' = Some (PStr out) \<and>
              ticket_field ext ((xs @ [x]) ! p) ''toydata_filename'' = Some (PStr toy) \<and>
              ticket_field ext ((xs @ [x]) ! p) ''toydata_mode'' = Some mode \<and>
              (mode = PStr ''generate_and_store'' \<or> mode = PStr ''generate'') \<and>
              outputs (compute_jobs st ! p) =
                (basename out, False) #
                (if mode = PStr ''generate_and_store'' then [(basename toy, False)] else []))"
    proof cases
      case 1
      then have "compute_jobs st ! p = compute_jobs st1 ! p"
        using f(1) lJ by (metis nth_append)
      then show ?thesis using ih 1 by (simp add: nth_append)
    next
      case 2
      then have "compute_jobs st ! p = last (compute_jobs st)"
        using f(1) lJ by (metis nth_append_length)
      then show ?thesis using f(2,17) 2 by (simp add: nth_append)
    qed
  qed
qed

lemma loop_threshold:
  assumes "tickets_loop ext name st0 lv0 0 ts = Inr (st, lv)"
      and "name \<noteq> ''combine''" and "new_to_combine lv0" and "the_jobs st0 = []"
      and "\<not> added_limit_threshold st0"
  shows "(case first_threshold ext ts of
            None \<Rightarrow> \<not> added_limit_threshold st \<and> rc st = rc st0
                     \<and> f_limit_threshold st = f_limit_threshold st0
          | Some v \<Rightarrow> \<exists>p r. v = PStr p \<and> added_limit_threshold st \<and> rc st0 = Some r
                     \<and> rc st = Some (r @ [(''local'', basename p, file_url p)])
                     \<and> f_limit_threshold st = Some (basename p))
       \<and> (\<forall>q<length ts. \<exists>six. workflow_inputs st0 = Inr six \<and>
             (case first_threshold ext (take (Suc q) ts) of
                None \<Rightarrow> inputs (compute_jobs st ! q) = six
              | Some v \<Rightarrow> \<exists>p. v = PStr p \<and> inputs (compute_jobs st ! q) = six @ [basename p]))"
  using assms(1)
proof (induction ts arbitrary: st lv rule: rev_induct)
  case Nil
  then show ?case using assms(5) by simp
next
  case (snoc x xs)
  from snoc.prems obtain st1 lv1 where
    l: "tickets_loop ext name st0 lv0 0 xs = Inr (st1, lv1)"
    and s: "ticket_step ext name st1 lv1 (0 + int (length xs)) x = Inr (st, lv)"
    by (rule tickets_loop_snoc_Inr)
  note ih = snoc.IH[OF l]
  note fr = loop_frame[OF l assms(2,3,4)]
  have ptr: "new_to_combine lv1 \<or> points_last st1 (combine_job lv1)"
    using fr by (cases "xs = []") auto
  note f = ticket_step_Inr[OF s assms(2) ptr]
  have lJ: "length (compute_jobs st1) = length xs" using fr by simp
  have wi: "workflow_inputs st1 = workflow_inputs st0" using fr by simp
  have A: "(case first_threshold ext (xs @ [x]) of
            None \<Rightarrow> \<not> added_limit_threshold st \<and> rc st = rc st0
                     \<and> f_limit_threshold st = f_limit_threshold st0
          | Some v \<Rightarrow> \<exists>p r. v = PStr p \<and> added_limit_threshold st \<and> rc st0 = Some r
                     \<and> rc st = Some (r @ [(''local'', basename p, file_url p)])
                     \<and> f_limit_threshold st = Some (basename p))"
  proof (cases "first_threshold ext xs")
    case None
    then have i1: "\<not> added_limit_threshold st1" "rc st1 = rc st0"
      "f_limit_threshold st1 = f_limit_threshold st0"
      using ih by simp_all
    show ?thesis
    proof (cases "ticket_limit_threshold ext x")
      case n2: None
      then show ?thesis using None i1 f(14,15) by (simp add: first_threshold_snoc)
    next
      case (Some v)
      from f(16)[OF i1(1) Some] show ?thesis
        using None Some i1 f(14) by (auto simp: first_threshold_snoc)
    qed
  next
    case (Some v)
    then obtain p r where i1: "v = PStr p" "added_limit_threshold st1" "rc st0 = Some r"
      "rc st1 = Some (r @ [(''local'', basename p, file_url p)])"
      "f_limit_threshold st1 = Some (basename p)"
      using ih by auto
    then show ?thesis using Some f(14,15) by (simp add: first_threshold_snoc)
  qed
  have B: "\<forall>q<length (xs @ [x]). \<exists>six. workflow_inputs st0 = Inr six \<and>
             (case first_threshold ext (take (Suc q) (xs @ [x])) of
                None \<Rightarrow> inputs (compute_jobs st ! q) = six
              | Some v \<Rightarrow> \<exists>p. v = PStr p \<and> inputs (compute_jobs st ! q) = six @ [basename p])"
  proof (intro allI impI)
    fix q assume "q < length (xs @ [x])"
    then consider "q < length xs" | "q = length xs" by fastforce
    then show "\<exists>six. workflow_inputs st0 = Inr six \<and>
             (case first_threshold ext (take (Suc q) (xs @ [x])) of
                None \<Rightarrow> inputs (compute_jobs st ! q) = six
              | Some v \<Rightarrow> \<exists>p. v = PStr p \<and> inputs (compute_jobs st ! q) = six @ [basename p])"
    proof cases
      case 1
      then have e: "compute_jobs st ! q = compute_jobs st1 ! q"
        using f(1) lJ by (metis nth_append)
      have t: "take (Suc q) (xs @ [x]) = take (Suc q) xs" using 1 by simp
      have "\<exists>six. workflow_inputs st0 = Inr six \<and>
             (case first_threshold ext (take (Suc q) xs) of
                None \<Rightarrow> inputs (compute_jobs st1 ! q) = six
              | Some v \<Rightarrow> \<exists>p. v = PStr p \<and> inputs (compute_jobs st1 ! q) = six @ [basename p])"
        using ih 1 by blast
      then show ?thesis unfolding e t .
    next
      case 2
      then have j: "compute_jobs st ! q = last (compute_jobs st)"
        using f(1) lJ by (metis nth_append_length)
      have t: "take (Suc q) (xs @ [x]) = xs @ [x]" using 2 by simp
      from f(13) obtain six where six: "workflow_inputs st1 = Inr six"
        and inp: "inputs (last (compute_jobs st)) =
                    six @ (if added_limit_threshold st then [the (f_limit_threshold st)] else [])"
        by blast
      show ?thesis
      proof (cases "first_threshold ext (xs @ [x])")
        case None
        then show ?thesis using A six inp j t wi by simp
      next
        case (Some v)
        then show ?thesis using A six inp j t wi by auto
      qed
    qed
  qed
  show ?case using A B by simp
qed


subsection \<open>The workflow as a whole\<close>

lemma generate_rc_Inr:
  assumes "generate_rc st = Inr (r, st')"
  shows "length r = 6"
    and "workflow_inputs st' = Inr (map (\<lambda>(site, lfn, pfn). lfn) r)"
    and "wf st' = wf st" and "combine_n_outputs st' = combine_n_outputs st"
    and "workflow_id st' = workflow_id st"
    and "added_limit_threshold st' = added_limit_threshold st"
    and "f_limit_threshold st' = f_limit_threshold st"
    and "tc st' = tc st" and "sc st' = sc st"
  using assms
  by (auto simp: generate_rc_def Let_def workflow_inputs_def the_attr_def split: option.splits)

lemma generate_workflow_Inr:
  assumes "generate_workflow ext w name st tickets = Inr (st', w')"
  obtains sti stl lv wfl r6 where
    "combine_n_jobs st = 1"
    "tickets_loop ext name sti lv_init 0 tickets = Inr (stl, lv)"
    "the_jobs sti = []"
    "combine_n_outputs sti = combine_n_outputs st"
    "workflow_id sti = workflow_id st"
    "added_limit_threshold sti = added_limit_threshold st"
    "f_limit_threshold sti = f_limit_threshold st"
    "rc sti = Some r6" "length r6 = 6"
    "workflow_inputs sti = Inr (map (\<lambda>(site, lfn, pfn). lfn) r6)"
    "wf stl = Some wfl"
    "st' = stl\<lparr>wf := Some (wfl\<lparr>replica_catalog := rc stl, transformation_catalog := tc stl,
                                  site_catalog := sc stl\<rparr>)\<rparr>"
    "w' = w\<lparr>effects := effects w @
             [WriteWorkflow (workflow_file stl)
                (wfl\<lparr>replica_catalog := rc stl, transformation_catalog := tc stl,
                     site_catalog := sc stl\<rparr>)]\<rparr>"
proof -
  from assms have one: "combine_n_jobs st = 1"
    by (auto simp: generate_workflow_def split: if_splits)
  define sta where "sta = st\<lparr>wf := Some (Workflow ''alea_workflow'')\<rparr>"
  from assms one obtain s where s: "generate_sc w sta = Inr s"
    and r1: "andthen (generate_rc (sta\<lparr>sc := Some s,
                         tc := Some (generate_tc (sta\<lparr>sc := Some s\<rparr>))\<rparr>)) (\<lambda>(r, st).
        let st = st\<lparr>rc := Some r\<rparr>;
            lv = \<lparr>combine_i = 0, new_to_combine = True, combine_job = None\<rparr> in
        andthen (tickets_loop ext name st lv 0 tickets) (\<lambda>(st, lv).
        andthen (at st (the_attr (wf st))) (\<lambda>wfl.
        let wfl = wfl\<lparr>replica_catalog := rc st, transformation_catalog := tc st,
                      site_catalog := sc st\<rparr>
        in Inr (st\<lparr>wf := Some wfl\<rparr>,
                w\<lparr>effects := effects w @ [WriteWorkflow (workflow_file st) wfl]\<rparr>)))) = Inr (st', w')"
    by (auto simp: generate_workflow_def sta_def Let_def andthen_Inr_iff at_Inr_iff)
  define stb where "stb = sta\<lparr>sc := Some s, tc := Some (generate_tc (sta\<lparr>sc := Some s\<rparr>))\<rparr>"
  from r1 obtain r6 st6 where g: "generate_rc stb = Inr (r6, st6)"
    and r2: "andthen (tickets_loop ext name (st6\<lparr>rc := Some r6\<rparr>) lv_init 0 tickets) (\<lambda>(st, lv).
        andthen (at st (the_attr (wf st))) (\<lambda>wfl.
        let wfl = wfl\<lparr>replica_catalog := rc st, transformation_catalog := tc st,
                      site_catalog := sc st\<rparr>
        in Inr (st\<lparr>wf := Some wfl\<rparr>,
                w\<lparr>effects := effects w @ [WriteWorkflow (workflow_file st) wfl]\<rparr>))) = Inr (st', w')"
    by (auto simp: stb_def lv_init_def Let_def andthen_Inr_iff)
  define sti where "sti = st6\<lparr>rc := Some r6\<rparr>"
  from r2 obtain stl lv wfl where l: "tickets_loop ext name sti lv_init 0 tickets = Inr (stl, lv)"
    and wfl: "wf stl = Some wfl"
    and st': "st' = stl\<lparr>wf := Some (wfl\<lparr>replica_catalog := rc stl, transformation_catalog := tc stl,
                                  site_catalog := sc stl\<rparr>)\<rparr>"
    and w': "w' = w\<lparr>effects := effects w @
             [WriteWorkflow (workflow_file stl)
                (wfl\<lparr>replica_catalog := rc stl, transformation_catalog := tc stl,
                     site_catalog := sc stl\<rparr>)]\<rparr>"
    by (auto simp: sti_def Let_def andthen_Inr_iff at_Inr_iff the_attr_Inr_iff)
  note gr = generate_rc_Inr[OF g]
  have j0: "the_jobs sti = []"
    using gr(3) by (simp add: sti_def stb_def sta_def the_jobs_def Workflow_def)
  have fr: "combine_n_outputs sti = combine_n_outputs st" "workflow_id sti = workflow_id st"
    "added_limit_threshold sti = added_limit_threshold st"
    "f_limit_threshold sti = f_limit_threshold st"
    using gr(4,5,6,7) by (simp_all add: sti_def stb_def sta_def)
  have rci: "rc sti = Some r6" by (simp add: sti_def)
  have wi: "workflow_inputs sti = Inr (map (\<lambda>(site, lfn, pfn). lfn) r6)"
    using gr(2) by (simp add: sti_def workflow_inputs_def)
  show ?thesis
    using one l j0 fr rci gr(1) wi wfl st' w' by (rule that)
qed


subsection \<open>Well-formed tickets are processed\<close>

lemma is_str_iff: "is_str v \<longleftrightarrow> (\<exists>p. v = Some (PStr p))"
  by (auto simp: is_str_def split: option.splits pyval.splits)

lemma correct_paths_args_dict_progress:
  assumes "map_of kw ''statistical_model_args'' = Some (PDict d)"
      and "map_of d ''limit_threshold'' = None \<or> is_str (map_of d ''limit_threshold'')"
      and "is_str (map_of kw ''toydata_filename'')" and "is_str (map_of kw ''output_filename'')"
      and "modified_statistical_model_config st \<noteq> None"
  shows "\<exists>ad. correct_paths_args_dict st kw = Inr ad"
  using assms
  by (auto simp: correct_paths_args_dict_def getitem_def map_of_setitem is_str_iff Let_def
      get_file_name_val_def the_attr_def)

lemma reorganize_script_progress:
  assumes "well_formed ext script" and "modified_statistical_model_config st \<noteq> None"
      and "rc st \<noteq> None"
  shows "\<exists>exe ad st'. reorganize_script ext st script = Inr (exe, ad, st')"
proof -
  from assms(1) obtain a b rest where sp: "str_split script = a # b # rest"
    by (auto simp: well_formed_def split: list.splits)
  from assms(1) obtain kw d where kw: "runner_kwargs ext script = Inr kw"
    and d: "map_of kw ''statistical_model_args'' = Some (PDict d)"
    and lt: "map_of d ''limit_threshold'' = None \<or> is_str (map_of d ''limit_threshold'')"
    and fs: "is_str (map_of kw ''toydata_filename'')" "is_str (map_of kw ''output_filename'')"
    by (auto simp: well_formed_def split: sum.splits option.splits pyval.splits)
  from assms(3) obtain r where r: "rc st = Some r" by auto
  have cp: "\<exists>ad. correct_paths_args_dict st' kw = Inr ad"
    if "modified_statistical_model_config st' = modified_statistical_model_config st" for st'
    using correct_paths_args_dict_progress[OF d lt fs, of st'] that assms(2) by simp
  show ?thesis
  proof (cases "added_limit_threshold st \<or> map_of d ''limit_threshold'' = None")
    case True
    from cp[of st] obtain ad where "correct_paths_args_dict st kw = Inr ad" by auto
    then show ?thesis using True sp kw d
      by (auto simp: reorganize_script_def getitem_def)
  next
    case False
    then obtain p where p: "map_of d ''limit_threshold'' = Some (PStr p)"
      using lt by (auto simp: is_str_iff)
    define st1 where "st1 = st\<lparr>limit_threshold := Some (PStr p),
                                f_limit_threshold := Some (basename p),
                                rc := Some (r @ [(''local'', basename p, file_url p)]),
                                added_limit_threshold := True\<rparr>"
    have a: "add_limit_threshold (st\<lparr>limit_threshold := Some (PStr p)\<rparr>) = Inr st1"
      using r by (simp add: add_limit_threshold_def the_attr_def get_file_name_val_def
          get_file_name_def st1_def)
    from cp[of st1] obtain ad where "correct_paths_args_dict st1 kw = Inr ad"
      by (auto simp: st1_def)
    then show ?thesis using False sp kw d p a
      by (auto simp: reorganize_script_def getitem_def)
  qed
qed

lemma build_job_progress:
  assumes "wf st \<noteq> None" and "\<exists>six. workflow_inputs st = Inr six"
      and "added_limit_threshold st \<longrightarrow> f_limit_threshold st \<noteq> None"
      and "is_str (map_of ad ''output_filename'')" and "is_str (map_of ad ''toydata_filename'')"
  shows "\<exists>st'. build_job ext name st ad mode (Some idx) = Inr st'"
  using assms
  by (auto simp: build_job_def Let_def is_str_iff getitem_def File_def job_add_inputs_def
      wf_add_jobs_def the_attr_def)


lemma ready_wf_update: "ready st \<Longrightarrow> ready (st\<lparr>wf := Some x\<rparr>)"
  by (simp add: ready_def workflow_inputs_def)

lemma reorganize_script_ready:
  assumes "reorganize_script ext st script = Inr (exe, ad, st')" and "ready st"
  shows "ready st'"
proof -
  note fr = reorganize_script_frame[OF assms(1)]
  consider "added_limit_threshold st \<or> ticket_limit_threshold ext script = None"
    | v where "\<not> added_limit_threshold st" "ticket_limit_threshold ext script = Some v"
    by (cases "ticket_limit_threshold ext script") auto
  then show ?thesis
  proof cases
    case 1
    then show ?thesis using fr assms(2) by (auto simp: ready_def)
  next
    case 2
    from reorganize_script_Inr(4)[OF assms(1) 2] show ?thesis
      using fr assms(2) by (auto simp: ready_def)
  qed
qed

lemma ticket_step_progress:
  assumes "ready st" and "well_formed ext script"
      and "new_to_combine lv \<or> combine_job lv \<noteq> None"
  shows "\<exists>st' lv'. ticket_step ext name st lv job_id script = Inr (st', lv')
           \<and> ready st' \<and> combine_job lv' \<noteq> None"
proof -
  from assms(1) obtain wfl where wfl: "wf st = Some wfl" by (auto simp: ready_def)
  obtain cj st1 where
    c: "(if new_to_combine lv
              then andthen (add_combine_job st (combine_i lv)) (\<lambda>(r, st). Inr (Some r, st))
              else Inr (combine_job lv, st)) = Inr (Some cj, st1)"
    and r1: "ready st1"
  proof (cases "new_to_combine lv")
    case True
    show ?thesis
      using True wfl ready_wf_update[OF assms(1)]
      by (intro that[of "length (jobs wfl)"
            "snd (projr (add_combine_job st (combine_i lv)))"])
         (simp_all add: add_combine_job_def wf_add_jobs_def the_attr_def Let_def)
  next
    case False
    then obtain i where "combine_job lv = Some i" using assms(3) by auto
    then show ?thesis using False assms(1) by (intro that[of i st]) simp_all
  qed
  from r1 have "modified_statistical_model_config st1 \<noteq> None" "rc st1 \<noteq> None"
    by (simp_all add: ready_def)
  from reorganize_script_progress[OF assms(2) this] obtain exe ad st2 where
    ro: "reorganize_script ext st1 script = Inr (exe, ad, st2)" by blast
  have r2: "ready st2" using ro r1 by (rule reorganize_script_ready)
  from reorganize_script_Inr(1)[OF ro] obtain kw where
    kw: "runner_kwargs ext script = Inr kw" and cp: "correct_paths_args_dict st2 kw = Inr ad"
    by blast
  from cp obtain d lt toy0 out0 modified where cpf:
    "map_of kw ''toydata_filename'' = Some (PStr toy0)"
    "map_of kw ''output_filename'' = Some (PStr out0)"
    "ad = setitem (setitem (setitem (setitem kw ''statistical_model_args''
               (PDict (case lt of None \<Rightarrow> setitem d ''template_path'' (PStr ''templates/'')
                       | Some p \<Rightarrow> setitem (setitem d ''template_path'' (PStr ''templates/''))
                                     ''limit_threshold'' (PStr (basename p)))))
               ''toydata_filename'' (PStr (basename toy0)))
               ''output_filename'' (PStr (basename out0)))
               ''statistical_model_config'' (PStr (basename modified))"
    by (rule correct_paths_args_dict_Inr)
  have m1: "map_of ad ''toydata_mode'' = map_of kw ''toydata_mode''"
    and m2: "is_str (map_of ad ''output_filename'')"
    and m3: "is_str (map_of ad ''toydata_filename'')"
    using cpf(3) by (simp_all add: map_of_setitem is_str_def)
  from assms(2) kw obtain mode where md: "map_of ad ''toydata_mode'' = Some mode"
    and ok: "mode = PStr ''generate_and_store'' \<or> mode = PStr ''generate''"
    unfolding m1 by (auto simp: well_formed_def)
  from r2 have "wf st2 \<noteq> None" "\<exists>six. workflow_inputs st2 = Inr six"
    "added_limit_threshold st2 \<longrightarrow> f_limit_threshold st2 \<noteq> None"
    by (simp_all add: ready_def)
  from build_job_progress[OF this m2 m3] obtain st3 where
    bj: "build_job ext name st2 ad mode (Some cj) = Inr st3" by blast
  have "\<exists>x. st3 = st2\<lparr>wf := Some x\<rparr>"
    using bj by (rule build_job_Inr) blast
  then have r3: "ready st3" using r2 ready_wf_update by blast
  then have k: "combine_n_outputs st3 \<noteq> 0" by (simp add: ready_def)
  have "\<exists>lv'. ticket_step ext name st lv job_id script = Inr (st3, lv') \<and> combine_job lv' = Some cj"
    using c ro md ok bj k by (auto simp: ticket_step_def getitem_def)
  then show ?thesis using r3 by auto
qed


lemma tickets_loop_progress:
  assumes "ready st" and "\<forall>t\<in>set ts. well_formed ext t"
      and "new_to_combine lv \<or> combine_job lv \<noteq> None"
  shows "\<exists>st' lv'. tickets_loop ext name st lv j ts = Inr (st', lv') \<and> ready st'"
  using assms
proof (induction ts arbitrary: st lv j)
  case Nil
  then show ?case by simp
next
  case (Cons t ts)
  from ticket_step_progress[OF Cons.prems(1) _ Cons.prems(3), of ext t name j] Cons.prems(2)
  obtain st1 lv1 where s: "ticket_step ext name st lv j t = Inr (st1, lv1)"
    and r: "ready st1" and c: "combine_job lv1 \<noteq> None"
    by auto
  from Cons.IH[OF r, of lv1 "j + 1"] Cons.prems(2) c
  obtain st' lv' where "tickets_loop ext name st1 lv1 (j + 1) ts = Inr (st', lv')" "ready st'"
    by auto
  then show ?case using s by simp
qed

lemma generate_workflow_progress:
  assumes "combine_n_jobs st = 1"
      and "environ w ''HOME'' \<noteq> None" and "environ w ''USER'' \<noteq> None"
      and "environ w ''X509_USER_PROXY'' \<noteq> None"
      and "modified_statistical_model_config st \<noteq> None"
      and "combine_n_outputs st \<noteq> 0"
      and "added_limit_threshold st \<longrightarrow> f_limit_threshold st \<noteq> None"
      and "\<forall>t\<in>set tickets. well_formed ext t"
  shows "\<exists>st' w'. generate_workflow ext w name st tickets = Inr (st', w')"
proof -
  define sta where "sta = st\<lparr>wf := Some (Workflow ''alea_workflow'')\<rparr>"
  from assms(2,3,4) obtain s where s: "generate_sc w sta = Inr s"
    by (auto simp: generate_sc_def env_get_def Let_def)
  define stb where "stb = sta\<lparr>sc := Some s, tc := Some (generate_tc (sta\<lparr>sc := Some s\<rparr>))\<rparr>"
  from assms(5) obtain r6 st6 where g: "generate_rc stb = Inr (r6, st6)"
    by (auto simp: generate_rc_def Let_def stb_def sta_def)
  note gr = generate_rc_Inr[OF g]
  define sti where "sti = st6\<lparr>rc := Some r6\<rparr>"
  have m6: "modified_statistical_model_config st6 = modified_statistical_model_config st"
    using g by (auto simp: generate_rc_def Let_def stb_def sta_def split: option.splits)
  have "ready sti"
    using gr assms(5,6,7) m6
    by (simp add: ready_def sti_def stb_def sta_def workflow_inputs_def)
  from tickets_loop_progress[OF this assms(8), of lv_init name 0]
  obtain stl lv where l: "tickets_loop ext name sti lv_init 0 tickets = Inr (stl, lv)"
    and rl: "ready stl"
    by (auto simp: lv_init_def)
  from rl obtain wfl where "wf stl = Some wfl" by (auto simp: ready_def)
  then show ?thesis
    using assms(1) s g l
    by (simp add: generate_workflow_def Let_def the_attr_def
        sta_def[symmetric] stb_def[symmetric] sti_def[symmetric] lv_init_def[symmetric])
qed



subsection \<open>Cohorts of the combine jobs\<close>



lemma take_drop_nth:
  "take k (drop m xs) = map ((!) xs) [m..<min (m + k) (length xs)]"
proof (rule nth_equalityI)
  show "length (take k (drop m xs)) = length (map ((!) xs) [m..<min (m + k) (length xs)])"
    by (auto simp: min_def)
next
  fix i assume "i < length (take k (drop m xs))"
  then have i: "i < k" "m + i < length xs" by auto
  then have b: "m + i < min (m + k) (length xs)" by (simp add: min_def)
  then have "i < length [m..<min (m + k) (length xs)]" by (simp add: min_def)
  then have "map ((!) xs) [m..<min (m + k) (length xs)] ! i
               = xs ! ([m..<min (m + k) (length xs)] ! i)"
    by (rule nth_map)
  also have "\<dots> = xs ! (m + i)" using b by (simp only: nth_upt)
  finally show "take k (drop m xs) ! i = map ((!) xs) [m..<min (m + k) (length xs)] ! i"
    using i by simp
qed

lemma ceil_div_bounds:
  assumes "0 < k"
  shows "n \<le> ((n + k - 1) div k) * k \<and> ((n + k - 1) div k) * k < n + (k::nat)"
proof -
  define c where "c = (n + k - 1) div k"
  define r where "r = (n + k - 1) mod k"
  have e: "n + k - 1 = c * k + r" by (simp add: c_def r_def)
  have r: "r < k" using assms by (simp add: r_def)
  have "c * k \<le> n + k - 1" using e by simp
  then have a: "c * k < n + k" using assms by simp
  have "n + k = c * k + r + 1" using e assms by simp
  then have b: "n \<le> c * k" using r by simp
  show ?thesis using a b by (simp add: c_def)
qed


lemma ex_well_formed: "\<forall>t\<in>set ex_tickets. well_formed ex_ext t"
  by (simp add: ex_tickets_def well_formed_def ex_ext_def ex_args_def is_str_def str_split_def
      is_space_def Let_def)

lemma ex_generate_workflow:
  "\<exists>st' w'. generate_workflow ex_ext ex_world ''run_toymc_wrapper'' ex_prepared ex_tickets
              = Inr (st', w')"
  by (rule generate_workflow_progress)
     (simp_all add: ex_well_formed ex_prepared_def ex_submitter_def ex_world_def)

lemma ex_ticket_fields:
  "ticket_field ex_ext (ex_tickets ! 0) ''output_filename'' = Some (PStr ''/home/u/out/fit_0.h5'')"
  "ticket_field ex_ext (ex_tickets ! Suc 0) ''output_filename'' = Some (PStr ''/home/u/out/fit_1.h5'')"
  "ticket_field ex_ext (ex_tickets ! 2) ''output_filename'' = Some (PStr ''/home/u/out/fit_2.h5'')"
  "ticket_field ex_ext (ex_tickets ! 0) ''toydata_filename'' = Some (PStr ''/home/u/out/toy_0.h5'')"
  "ticket_field ex_ext (ex_tickets ! Suc 0) ''toydata_filename'' = Some (PStr ''/home/u/out/toy_1.h5'')"
  "ticket_field ex_ext (ex_tickets ! 2) ''toydata_filename'' = Some (PStr ''/home/u/out/toy_2.h5'')"
  "ticket_field ex_ext (ex_tickets ! 0) ''toydata_mode'' = Some (PStr ''generate'')"
  "ticket_field ex_ext (ex_tickets ! Suc 0) ''toydata_mode'' = Some (PStr ''generate_and_store'')"
  "ticket_field ex_ext (ex_tickets ! 2) ''toydata_mode'' = Some (PStr ''generate'')"
  by (simp_all add: ticket_field_def ex_tickets_def ex_ext_def ex_args_def)

lemma ex_basenames:
  "basename ''/home/u/out/fit_0.h5'' = ''fit_0.h5''"
  "basename ''/home/u/out/fit_1.h5'' = ''fit_1.h5''"
  "basename ''/home/u/out/fit_2.h5'' = ''fit_2.h5''"
  "basename ''/home/u/out/toy_1.h5'' = ''toy_1.h5''"
  by (simp_all add: basename_def)

text \<open>
  C1. When workflow generation returns for a sequence of \<open>N\<close> tickets with a positive cohort
  capacity \<open>K = combine_n_outputs\<close>, the workflow holds \<open>N\<close> compute jobs, one per ticket in
  ticket order, and exactly \<open>\<lceil>N / K\<rceil>\<close> combine jobs (the number \<open>c\<close> with
  \<open>N \<le> c * K < N + K\<close>). The inputs of the \<open>i\<close>-th combine job are the declared outputs of the
  compute jobs at positions \<open>i * K\<close> up to \<open>min ((i + 1) * K) N - 1\<close>, in that order, and its only
  argument is the workflow id followed by \<open>-i\<close>. The outputs of a compute job are the base
  names of its ticket's output file and, in mode \<open>generate_and_store\<close>, of its toy-data
  file; the cohort of a job depends on its position alone.
\<close>

theorem combine_cohorts:
  assumes "generate_workflow ext w name st tickets = Inr (st', w')"
      and "name \<noteq> ''combine''" and "0 < combine_n_outputs st"
  shows "length (compute_jobs st') = length tickets
       \<and> length (combine_jobs st') = (length tickets + nat (combine_n_outputs st) - 1)
                                        div nat (combine_n_outputs st)
       \<and> length tickets \<le> length (combine_jobs st') * nat (combine_n_outputs st)
       \<and> length (combine_jobs st') * nat (combine_n_outputs st)
            < length tickets + nat (combine_n_outputs st)
       \<and> (\<forall>i<length (combine_jobs st').
             inputs (combine_jobs st' ! i)
               = concat (map (\<lambda>p. out_lfns (compute_jobs st' ! p))
                   [i * nat (combine_n_outputs st)
                      ..< min ((i + 1) * nat (combine_n_outputs st)) (length tickets)])
             \<and> args (combine_jobs st' ! i) = [workflow_id st @ ''-'' @ str_int (int i)])
       \<and> (\<forall>p<length tickets.
             transformation (compute_jobs st' ! p) = name \<and>
             (\<exists>out toy mode.
                ticket_field ext (tickets ! p) ''output_filename'' = Some (PStr out) \<and>
                ticket_field ext (tickets ! p) ''toydata_filename'' = Some (PStr toy) \<and>
                ticket_field ext (tickets ! p) ''toydata_mode'' = Some mode \<and>
                (mode = PStr ''generate_and_store'' \<or> mode = PStr ''generate'') \<and>
                outputs (compute_jobs st' ! p) =
                  (basename out, False) #
                  (if mode = PStr ''generate_and_store'' then [(basename toy, False)] else [])))"
proof -
  from assms(1) obtain sti stl lv wfl r6 where g:
    "combine_n_jobs st = 1"
    "tickets_loop ext name sti lv_init 0 tickets = Inr (stl, lv)"
    "the_jobs sti = []"
    "combine_n_outputs sti = combine_n_outputs st"
    "workflow_id sti = workflow_id st"
    "added_limit_threshold sti = added_limit_threshold st"
    "f_limit_threshold sti = f_limit_threshold st"
    "rc sti = Some r6" "length r6 = 6"
    "workflow_inputs sti = Inr (map (\<lambda>(site, lfn, pfn). lfn) r6)"
    "wf stl = Some wfl"
    "st' = stl\<lparr>wf := Some (wfl\<lparr>replica_catalog := rc stl, transformation_catalog := tc stl,
                                  site_catalog := sc stl\<rparr>)\<rparr>"
    by (rule generate_workflow_Inr) blast
  define k where "k = nat (combine_n_outputs st)"
  have k: "0 < k" using assms(3) by (simp add: k_def)
  have js: "the_jobs st' = the_jobs stl"
    using g(11,12) by (simp add: the_jobs_def)
  have J: "compute_jobs st' = compute_jobs stl" and C: "combine_jobs st' = combine_jobs stl"
    using js by (simp_all add: compute_jobs_def combine_jobs_def)
  have ni: "new_to_combine lv_init" "combine_i lv_init = 0" by (simp_all add: lv_init_def)
  have K: "0 < combine_n_outputs sti" using g(4) assms(3) by simp
  note fr = loop_frame[OF g(2) assms(2) ni(1) g(3)]
  note co = loop_cohorts[OF g(2) assms(2) ni(1) g(3) ni(2) K, unfolded g(4) g(5), folded k_def]
  note ou = loop_outputs[OF g(2) assms(2) ni(1) g(3)]
  have lJ: "length (compute_jobs st') = length tickets" using fr J by simp
  have lC: "length (combine_jobs st') = (length tickets + k - 1) div k" using co C by simp
  have inp: "\<forall>i<length (combine_jobs st').
             inputs (combine_jobs st' ! i)
               = concat (map (\<lambda>p. out_lfns (compute_jobs st' ! p))
                   [i * k ..< min ((i + 1) * k) (length tickets)])
             \<and> args (combine_jobs st' ! i) = [workflow_id st @ ''-'' @ str_int (int i)]"
  proof (intro allI impI)
    fix i assume i: "i < length (combine_jobs st')"
    then have "inputs (combine_jobs st' ! i) = map inputs (combine_jobs stl) ! i"
      using C by simp
    also have "\<dots> = concat (map out_lfns (take k (drop (i * k) (compute_jobs stl))))"
      using co i C by simp
    also have "take k (drop (i * k) (compute_jobs stl))
                 = map ((!) (compute_jobs st')) [i * k ..< min (i * k + k) (length tickets)]"
      using take_drop_nth[of k "i * k" "compute_jobs st'"] J lJ by simp
    finally have a: "inputs (combine_jobs st' ! i)
               = concat (map (\<lambda>p. out_lfns (compute_jobs st' ! p))
                   [i * k ..< min ((i + 1) * k) (length tickets)])"
      by (simp add: comp_def add.commute)
    have "args (combine_jobs st' ! i) = map args (combine_jobs stl) ! i" using i C by simp
    also have "\<dots> = [workflow_id st @ ''-'' @ str_int (int i)]"
      using co i C by simp
    finally show "inputs (combine_jobs st' ! i)
               = concat (map (\<lambda>p. out_lfns (compute_jobs st' ! p))
                   [i * k ..< min ((i + 1) * k) (length tickets)])
             \<and> args (combine_jobs st' ! i) = [workflow_id st @ ''-'' @ str_int (int i)]"
      using a by simp
  qed
  show ?thesis
    unfolding k_def[symmetric]
    using lJ lC inp ou ceil_div_bounds[OF k, of "length tickets"] J by simp
qed


theorem combine_cohorts_witness:
  "\<exists>st' w'. generate_workflow ex_ext ex_world ''run_toymc_wrapper'' ex_prepared ex_tickets
              = Inr (st', w')
     \<and> length (compute_jobs st') = 3 \<and> length (combine_jobs st') = 2
     \<and> inputs (combine_jobs st' ! 0) = [''fit_0.h5'', ''fit_1.h5'', ''toy_1.h5'']
     \<and> inputs (combine_jobs st' ! 1) = [''fit_2.h5'']
     \<and> args (combine_jobs st' ! 0) = [''wf-0''] \<and> args (combine_jobs st' ! 1) = [''wf-1'']"
proof -
  from ex_generate_workflow obtain st' w' where
    g: "generate_workflow ex_ext ex_world ''run_toymc_wrapper'' ex_prepared ex_tickets
          = Inr (st', w')" by blast
  have k: "combine_n_outputs ex_prepared = 2" "workflow_id ex_prepared = ''wf''"
    by (simp_all add: ex_prepared_def ex_submitter_def)
  have n: "length ex_tickets = 3" by (simp add: ex_tickets_def)
  have ne: "''run_toymc_wrapper'' \<noteq> ''combine''" by simp
  have kp: "0 < combine_n_outputs ex_prepared" by (simp add: k)
  note cc = combine_cohorts[OF g ne kp]
  note c1 = cc[THEN conjunct1]
  note c2 = cc[THEN conjunct2, THEN conjunct1]
  note c5 = cc[THEN conjunct2, THEN conjunct2, THEN conjunct2, THEN conjunct2, THEN conjunct1]
  note c6 = cc[THEN conjunct2, THEN conjunct2, THEN conjunct2, THEN conjunct2, THEN conjunct2,
               unfolded n, rule_format]
  have lJ: "length (compute_jobs st') = 3" using c1 by (simp add: n)
  have lC: "length (combine_jobs st') = 2" using c2 by (simp add: k n)
  note ci = c5[unfolded lC, rule_format]
  have o: "out_lfns (compute_jobs st' ! 0) = [''fit_0.h5'']"
    "out_lfns (compute_jobs st' ! Suc 0) = [''fit_1.h5'', ''toy_1.h5'']"
    "out_lfns (compute_jobs st' ! 2) = [''fit_2.h5'']"
    using c6[of 0] c6[of "Suc 0"] c6[of 2]
    by (auto simp: ex_ticket_fields ex_basenames out_lfns_def)
  have u: "[0..<2] = [0, Suc 0]" "[2..<3] = [2]" by (simp_all add: upt_rec)
  have i0: "inputs (combine_jobs st' ! 0) = [''fit_0.h5'', ''fit_1.h5'', ''toy_1.h5'']"
    and a0: "args (combine_jobs st' ! 0) = [''wf-0'']"
    using ci[of 0] by (simp_all add: k n o u str_int_0)
  have i1: "inputs (combine_jobs st' ! 1) = [''fit_2.h5'']"
    and a1: "args (combine_jobs st' ! 1) = [''wf-1'']"
    using ci[of 1] by (simp_all add: k n o u str_int_1)
  show ?thesis using g lJ lC i0 i1 a0 a1 by blast
qed



subsection \<open>The limit threshold\<close>

lemma first_threshold_append:
  "first_threshold ext xs = Some v \<Longrightarrow> first_threshold ext (xs @ ys) = Some v"
proof (induction ys rule: rev_induct)
  case Nil
  then show ?case by simp
next
  case (snoc y ys)
  then have "first_threshold ext ((xs @ ys) @ [y]) = Some v"
    by (simp only: first_threshold_snoc option.case)
  then show ?case by simp
qed

lemma first_threshold_take:
  assumes "first_threshold ext (take n ts) = Some v"
  shows "first_threshold ext ts = Some v"
  using first_threshold_append[OF assms, of "drop n ts"] by simp

lemma generate_workflow_threshold:
  assumes "generate_workflow ext w name st tickets = Inr (st', w')"
      and "name \<noteq> ''combine''" and "\<not> added_limit_threshold st"
  obtains r6 wfl where
    "length r6 = 6"
    "wf st' = Some wfl" "replica_catalog wfl = rc st'"
    "case first_threshold ext tickets of
       None \<Rightarrow> \<not> added_limit_threshold st' \<and> rc st' = Some r6
     | Some v \<Rightarrow> \<exists>p. v = PStr p \<and> added_limit_threshold st'
                  \<and> rc st' = Some (r6 @ [(''local'', basename p, file_url p)])
                  \<and> f_limit_threshold st' = Some (basename p)"
    "\<forall>q<length tickets.
       case first_threshold ext (take (Suc q) tickets) of
         None \<Rightarrow> inputs (compute_jobs st' ! q) = map (\<lambda>(site, lfn, pfn). lfn) r6
       | Some v \<Rightarrow> \<exists>p. v = PStr p \<and>
           inputs (compute_jobs st' ! q) = map (\<lambda>(site, lfn, pfn). lfn) r6 @ [basename p]"
proof -
  from assms(1) obtain sti stl lv wfl r6 where g:
    "combine_n_jobs st = 1"
    "tickets_loop ext name sti lv_init 0 tickets = Inr (stl, lv)"
    "the_jobs sti = []"
    "combine_n_outputs sti = combine_n_outputs st"
    "workflow_id sti = workflow_id st"
    "added_limit_threshold sti = added_limit_threshold st"
    "f_limit_threshold sti = f_limit_threshold st"
    "rc sti = Some r6" "length r6 = 6"
    "workflow_inputs sti = Inr (map (\<lambda>(site, lfn, pfn). lfn) r6)"
    "wf stl = Some wfl"
    "st' = stl\<lparr>wf := Some (wfl\<lparr>replica_catalog := rc stl, transformation_catalog := tc stl,
                                  site_catalog := sc stl\<rparr>)\<rparr>"
    by (rule generate_workflow_Inr) blast
  have ni: "new_to_combine lv_init" by (simp add: lv_init_def)
  have na: "\<not> added_limit_threshold sti" using g(6) assms(3) by simp
  note lt = loop_threshold[OF g(2) assms(2) ni g(3) na]
  have js: "the_jobs st' = the_jobs stl"
    using g(11,12) by (simp add: the_jobs_def)
  have J: "compute_jobs st' = compute_jobs stl"
    using js by (simp add: compute_jobs_def)
  have fr: "rc st' = rc stl" "added_limit_threshold st' = added_limit_threshold stl"
    "f_limit_threshold st' = f_limit_threshold stl"
    using g(12) by simp_all
  have w1: "wf st' = Some (wfl\<lparr>replica_catalog := rc stl, transformation_catalog := tc stl,
                                  site_catalog := sc stl\<rparr>)"
    using g(12) by simp
  have w2: "replica_catalog (wfl\<lparr>replica_catalog := rc stl, transformation_catalog := tc stl,
                                  site_catalog := sc stl\<rparr>) = rc st'"
    using fr by simp
  have A: "case first_threshold ext tickets of
       None \<Rightarrow> \<not> added_limit_threshold st' \<and> rc st' = Some r6
     | Some v \<Rightarrow> \<exists>p. v = PStr p \<and> added_limit_threshold st'
                  \<and> rc st' = Some (r6 @ [(''local'', basename p, file_url p)])
                  \<and> f_limit_threshold st' = Some (basename p)"
    using lt[THEN conjunct1] g(8) unfolding fr
    by (auto split: option.splits)
  have B: "\<forall>q<length tickets.
       case first_threshold ext (take (Suc q) tickets) of
         None \<Rightarrow> inputs (compute_jobs st' ! q) = map (\<lambda>(site, lfn, pfn). lfn) r6
       | Some v \<Rightarrow> \<exists>p. v = PStr p \<and>
           inputs (compute_jobs st' ! q) = map (\<lambda>(site, lfn, pfn). lfn) r6 @ [basename p]"
    using lt[THEN conjunct2] unfolding J g(10) by simp
  show ?thesis using g(9) w1 w2 A B by (rule that)
qed

lemma ex_threshold_well_formed: "\<forall>t\<in>set ex_threshold_tickets. well_formed ex_ext t"
  by (simp add: ex_threshold_tickets_def well_formed_def ex_ext_def ex_args_def is_str_def
      str_split_def is_space_def Let_def)

lemma ex_threshold_generate_workflow:
  "\<exists>st' w'. generate_workflow ex_ext ex_world ''run_toymc_wrapper'' ex_prepared
               ex_threshold_tickets = Inr (st', w')"
  by (rule generate_workflow_progress)
     (simp_all add: ex_threshold_well_formed ex_prepared_def ex_submitter_def ex_world_def)

lemma ex_limit_thresholds:
  "ticket_limit_threshold ex_ext ''python3 /opt/alea/bin/alea_run_toymc 0'' = None"
  "ticket_limit_threshold ex_ext ''python3 /opt/alea/bin/alea_run_toymc 1''
     = Some (PStr ''/home/u/thresholds/lt.json'')"
  "ticket_limit_threshold ex_ext ''python3 /opt/alea/bin/alea_run_toymc 2'' = None"
  "ticket_limit_threshold ex_ext ''python3 /opt/alea/bin/alea_run_toymc 4''
     = Some (PStr ''/home/u/thresholds/lt.json'')"
  by (simp_all add: ticket_limit_threshold_def ex_ext_def ex_args_def)

lemma ex_threshold_basename: "basename ''/home/u/thresholds/lt.json'' = ''lt.json''"
  by (simp add: basename_def)

lemma first_threshold_Cons:
  "first_threshold ext (t # ts) =
     (case ticket_limit_threshold ext t of Some v \<Rightarrow> Some v | None \<Rightarrow> first_threshold ext ts)"
  by (simp add: first_threshold_def map_filter_simps split: option.splits)

text \<open>
  C5. In a workflow build that starts with the one-shot flag \<open>added_limit_threshold\<close> unset
  (as the constructor leaves it) and returns, the replica catalog attached to the workflow
  is the six entries of \<^verbatim>\<open>_generate_rc\<close> followed by at most one more entry: none when no ticket
  names a limit threshold, and otherwise the single entry for the file named by the first
  ticket that has one, however many later tickets name a limit threshold.
\<close>

theorem limit_threshold_registered_once:
  assumes "generate_workflow ext w name st tickets = Inr (st', w')"
      and "name \<noteq> ''combine''" and "\<not> added_limit_threshold st"
  shows "\<exists>r6 wfl. length r6 = 6 \<and> wf st' = Some wfl \<and> replica_catalog wfl = rc st' \<and>
           (case first_threshold ext tickets of
              None \<Rightarrow> rc st' = Some r6
            | Some v \<Rightarrow> \<exists>p. v = PStr p \<and>
                         rc st' = Some (r6 @ [(''local'', basename p, file_url p)]))"
proof -
  from assms obtain r6 wfl where f:
    "length r6 = 6"
    "wf st' = Some wfl" "replica_catalog wfl = rc st'"
    "case first_threshold ext tickets of
       None \<Rightarrow> \<not> added_limit_threshold st' \<and> rc st' = Some r6
     | Some v \<Rightarrow> \<exists>p. v = PStr p \<and> added_limit_threshold st'
                  \<and> rc st' = Some (r6 @ [(''local'', basename p, file_url p)])
                  \<and> f_limit_threshold st' = Some (basename p)"
    by (rule generate_workflow_threshold) blast
  have "case first_threshold ext tickets of
              None \<Rightarrow> rc st' = Some r6
            | Some v \<Rightarrow> \<exists>p. v = PStr p \<and>
                         rc st' = Some (r6 @ [(''local'', basename p, file_url p)])"
    using f(4) by (auto split: option.splits)
  then show ?thesis using f(1,2,3) by blast
qed

theorem limit_threshold_registered_once_witness:
  "\<exists>st' w' r6. generate_workflow ex_ext ex_world ''run_toymc_wrapper'' ex_prepared
                   ex_threshold_tickets = Inr (st', w')
     \<and> ticket_limit_threshold ex_ext (ex_threshold_tickets ! 1)
           = Some (PStr ''/home/u/thresholds/lt.json'')
     \<and> ticket_limit_threshold ex_ext (ex_threshold_tickets ! 2)
           = Some (PStr ''/home/u/thresholds/lt.json'')
     \<and> length r6 = 6
     \<and> rc st' = Some (r6 @ [(''local'', ''lt.json'', ''file:///home/u/thresholds/lt.json'')])"
proof -
  from ex_threshold_generate_workflow obtain st' w' where
    g: "generate_workflow ex_ext ex_world ''run_toymc_wrapper'' ex_prepared
          ex_threshold_tickets = Inr (st', w')" by blast
  have ne: "''run_toymc_wrapper'' \<noteq> ''combine''" by simp
  have na: "\<not> added_limit_threshold ex_prepared"
    by (simp add: ex_prepared_def ex_submitter_def)
  have ft: "first_threshold ex_ext ex_threshold_tickets = Some (PStr ''/home/u/thresholds/lt.json'')"
    by (simp add: ex_threshold_tickets_def first_threshold_Cons ex_limit_thresholds)
  from limit_threshold_registered_once[OF g ne na] obtain r6 where
    "length r6 = 6"
    "rc st' = Some (r6 @ [(''local'', ''lt.json'', ''file:///home/u/thresholds/lt.json'')])"
    unfolding ft by (auto simp: ex_threshold_basename file_url_def)
  moreover have "ticket_limit_threshold ex_ext (ex_threshold_tickets ! 1)
           = Some (PStr ''/home/u/thresholds/lt.json'')"
    "ticket_limit_threshold ex_ext (ex_threshold_tickets ! 2)
           = Some (PStr ''/home/u/thresholds/lt.json'')"
    by (simp_all add: ex_threshold_tickets_def ex_limit_thresholds)
  ultimately show ?thesis using g by blast
qed

text \<open>
  C10. In the same build, the inputs of the compute job of the ticket at position \<open>q\<close> are the
  six workflow inputs when no ticket at a position up to \<open>q\<close> names a limit threshold, and the
  six workflow inputs followed by the registered limit-threshold file (the one of the first
  ticket that names one, held by \<open>f_limit_threshold\<close>) otherwise, whether or not the ticket at
  \<open>q\<close> itself names a limit threshold.
\<close>

theorem limit_threshold_inputs:
  assumes "generate_workflow ext w name st tickets = Inr (st', w')"
      and "name \<noteq> ''combine''" and "\<not> added_limit_threshold st"
  shows "\<exists>six. length six = 6 \<and>
           (\<forall>q<length tickets.
              case first_threshold ext (take (Suc q) tickets) of
                None \<Rightarrow> inputs (compute_jobs st' ! q) = six
              | Some v \<Rightarrow> \<exists>p. v = PStr p \<and> first_threshold ext tickets = Some v \<and>
                           f_limit_threshold st' = Some (basename p) \<and>
                           inputs (compute_jobs st' ! q) = six @ [basename p])"
proof -
  from assms obtain r6 wfl where f:
    "length r6 = 6"
    "case first_threshold ext tickets of
       None \<Rightarrow> \<not> added_limit_threshold st' \<and> rc st' = Some r6
     | Some v \<Rightarrow> \<exists>p. v = PStr p \<and> added_limit_threshold st'
                  \<and> rc st' = Some (r6 @ [(''local'', basename p, file_url p)])
                  \<and> f_limit_threshold st' = Some (basename p)"
    "\<forall>q<length tickets.
       case first_threshold ext (take (Suc q) tickets) of
         None \<Rightarrow> inputs (compute_jobs st' ! q) = map (\<lambda>(site, lfn, pfn). lfn) r6
       | Some v \<Rightarrow> \<exists>p. v = PStr p \<and>
           inputs (compute_jobs st' ! q) = map (\<lambda>(site, lfn, pfn). lfn) r6 @ [basename p]"
    by (rule generate_workflow_threshold) blast
  define six where "six = map (\<lambda>(site, lfn, pfn). lfn) r6"
  have l: "length six = 6" using f(1) by (simp add: six_def)
  have "\<forall>q<length tickets.
              case first_threshold ext (take (Suc q) tickets) of
                None \<Rightarrow> inputs (compute_jobs st' ! q) = six
              | Some v \<Rightarrow> \<exists>p. v = PStr p \<and> first_threshold ext tickets = Some v \<and>
                           f_limit_threshold st' = Some (basename p) \<and>
                           inputs (compute_jobs st' ! q) = six @ [basename p]"
  proof (intro allI impI)
    fix q assume q: "q < length tickets"
    show "case first_threshold ext (take (Suc q) tickets) of
                None \<Rightarrow> inputs (compute_jobs st' ! q) = six
              | Some v \<Rightarrow> \<exists>p. v = PStr p \<and> first_threshold ext tickets = Some v \<and>
                           f_limit_threshold st' = Some (basename p) \<and>
                           inputs (compute_jobs st' ! q) = six @ [basename p]"
    proof (cases "first_threshold ext (take (Suc q) tickets)")
      case None
      then show ?thesis using f(3) q by (auto simp: six_def)
    next
      case (Some v)
      then have a: "first_threshold ext tickets = Some v" by (rule first_threshold_take)
      from f(3) q Some obtain p where p: "v = PStr p"
        "inputs (compute_jobs st' ! q) = six @ [basename p]"
        unfolding six_def by fastforce
      from f(2) a p(1) have "f_limit_threshold st' = Some (basename p)" by auto
      then show ?thesis using Some a p by simp
    qed
  qed
  then show ?thesis using l by blast
qed


theorem limit_threshold_inputs_witness:
  "\<exists>st' w' six. generate_workflow ex_ext ex_world ''run_toymc_wrapper'' ex_prepared ex_tickets
                    = Inr (st', w')
     \<and> ticket_limit_threshold ex_ext (ex_tickets ! 2) = None
     \<and> length six = 6
     \<and> inputs (compute_jobs st' ! 0) = six
     \<and> inputs (compute_jobs st' ! 1) = six @ [''lt.json'']
     \<and> inputs (compute_jobs st' ! 2) = six @ [''lt.json'']"
proof -
  from ex_generate_workflow obtain st' w' where
    g: "generate_workflow ex_ext ex_world ''run_toymc_wrapper'' ex_prepared ex_tickets
          = Inr (st', w')" by blast
  have ne: "''run_toymc_wrapper'' \<noteq> ''combine''" by simp
  have na: "\<not> added_limit_threshold ex_prepared"
    by (simp add: ex_prepared_def ex_submitter_def)
  have n: "length ex_tickets = 3" by (simp add: ex_tickets_def)
  have ft: "first_threshold ex_ext (take (Suc 0) ex_tickets) = None"
    "first_threshold ex_ext (take (Suc (Suc 0)) ex_tickets)
       = Some (PStr ''/home/u/thresholds/lt.json'')"
    "first_threshold ex_ext (take 3 ex_tickets)
       = Some (PStr ''/home/u/thresholds/lt.json'')"
    by (simp_all add: ex_tickets_def first_threshold_Cons ex_limit_thresholds)
  from limit_threshold_inputs[OF g ne na] obtain six where l: "length six = 6"
    and a: "\<forall>q<length ex_tickets.
              case first_threshold ex_ext (take (Suc q) ex_tickets) of
                None \<Rightarrow> inputs (compute_jobs st' ! q) = six
              | Some v \<Rightarrow> \<exists>p. v = PStr p \<and> first_threshold ex_ext ex_tickets = Some v \<and>
                           f_limit_threshold st' = Some (basename p) \<and>
                           inputs (compute_jobs st' ! q) = six @ [basename p]"
    by blast
  note b = a[unfolded n, rule_format]
  have i0: "inputs (compute_jobs st' ! 0) = six"
    using b[of 0] by (simp add: ft)
  have i1: "inputs (compute_jobs st' ! 1) = six @ [''lt.json'']"
    using b[of "Suc 0"] by (auto simp: ft ex_threshold_basename)
  have i2: "inputs (compute_jobs st' ! 2) = six @ [''lt.json'']"
    using b[of 2] by (auto simp: ft ex_threshold_basename)
  have "ticket_limit_threshold ex_ext (ex_tickets ! 2) = None"
    by (simp add: ex_tickets_def ex_limit_thresholds)
  then show ?thesis using g l i0 i1 i2 by blast
qed



subsection \<open>Tickets of an unsupported toy-data mode\<close>














end
